theory Spec2Isabelle
  imports
    Main
    "HOL-Library.Word"
    "HOL-Library.Char_ord"
    "HOL-Library.List_Lexorder"
    "HOL-Library.Multiset"
begin

section \<open>The PgBouncer configuration generator (package pgbouncer)\<close>

subsection \<open>Constants\<close>

definition configDirectory :: string where
  "configDirectory = ''/etc/pgbouncer''"

definition authFileProjectionPath :: string where
  "authFileProjectionPath = ''~postgres-operator/users.txt''"

definition iniFileProjectionPath :: string where
  "iniFileProjectionPath = ''~postgres-operator.ini''"

definition authFileAbsolutePath :: string where
  "authFileAbsolutePath = configDirectory @ ''/'' @ authFileProjectionPath"

definition iniFileAbsolutePath :: string where
  "iniFileAbsolutePath = configDirectory @ ''/'' @ iniFileProjectionPath"

definition iniGeneratedWarning :: string where
  "iniGeneratedWarning =
     ''# Generated by postgres-operator. DO NOT EDIT.\<newline>'' @
     ''# Your changes will not be saved.\<newline>''"

text \<open>
  The package constants that \<open>clusterINI\<close> and \<open>authFileContents\<close> read but that are
  declared in other files of the package. They are parameters of the model.
\<close>

record pgbouncer_consts =
  postgresqlUser :: string
  certFrontendAbsolutePath :: string
  certFrontendPrivateKeyAbsolutePath :: string
  certFrontendAuthorityAbsolutePath :: string
  certBackendAuthorityAbsolutePath :: string

subsection \<open>The part of the PostgresCluster object that the generator reads\<close>

text \<open>
  \<open>*cluster.Spec.Port\<close> and \<open>*cluster.Spec.Proxy.PGBouncer.Port\<close> dereference
  \<open>*int32\<close> pointers: a pointer is an option, and \<open>None\<close> is \<open>nil\<close>.
\<close>

record PGBouncerPodSpec =
  Port :: "32 word option"

record PostgresProxySpec =
  PGBouncer :: PGBouncerPodSpec

text \<open>
  The instance-set type \<open>'i\<close> is declared in the API package and stays abstract.
  \<open>Status\<close> is a record of which this program names one field, \<open>ObservedGeneration\<close>;
  the fields that other files write are the extension \<open>'s\<close> of the record.
  \<open>DeletionTimestamp\<close> is the field of the object's metadata that marks it for deletion.
\<close>

record 'i PostgresClusterSpec =
  Port :: "32 word option"
  Proxy :: PostgresProxySpec
  InstanceSets :: "'i list"

record PostgresClusterStatus =
  ObservedGeneration :: "64 word"

record ('i, 's) PostgresCluster =
  Name :: string
  Generation :: "64 word"
  DeletionTimestamp :: "int option"
  Spec :: "'i PostgresClusterSpec"
  Status :: "'s PostgresClusterStatus_scheme"

subsection \<open>Formatting integers: \<open>fmt.Sprint\<close> and the verb \<open>%d\<close> on an int32\<close>

definition digit_char :: "nat \<Rightarrow> char" where
  "digit_char d = char_of (48 + d)"

fun decimal :: "nat \<Rightarrow> string" where
  "decimal n = (if n < 10 then [digit_char n] else decimal (n div 10) @ [digit_char (n mod 10)])"

declare decimal.simps [simp del]

definition Sprint_int32 :: "32 word \<Rightarrow> string" where
  "Sprint_int32 p =
     (if sint p < 0 then CHR ''-'' # decimal (nat (- sint p)) else decimal (nat (sint p)))"

subsection \<open>iniValueSet\<close>

type_synonym iniValueSet = "string \<rightharpoonup> string"

text \<open>
  \<open>for k := range vs\<close> yields the keys of the map, each once, in an order that Go leaves
  unspecified and that may change from one call to the next. The order of one such
  iteration is an argument of the model: any list that enumerates the keys.
\<close>

definition range_of :: "iniValueSet \<Rightarrow> string list \<Rightarrow> bool" where
  "range_of vs order \<longleftrightarrow> distinct order \<and> set order = dom vs"

text \<open>\<open>vs[k]\<close> is the zero value, the empty string, at a key that is absent.\<close>

definition index_vs :: "iniValueSet \<Rightarrow> string \<Rightarrow> string" where
  "index_vs vs k = (case vs k of None \<Rightarrow> [] | Some v \<Rightarrow> v)"

text \<open>One \<open>fmt.Fprintf(&b, "%s = %s\n", k, vs[k])\<close>.\<close>

definition ini_line :: "iniValueSet \<Rightarrow> string \<Rightarrow> string" where
  "ini_line vs k = k @ '' = '' @ index_vs vs k @ ''\<newline>''"

text \<open>
  \<open>iniValueSet.String\<close>: collect the keys in iteration order, \<open>sort.Strings\<close> them
  (bytewise lexicographic order), and print one line for each.
\<close>

definition iniValueSet_String :: "iniValueSet \<Rightarrow> string list \<Rightarrow> string" where
  "iniValueSet_String vs order =
     (let keys = sort order
      in concat (map (ini_line vs) keys))"

subsection \<open>authFileContents\<close>

text \<open>
  \<open>strings.ReplaceAll(s, `"`, `""`)\<close>: the pattern is one byte long, so every
  occurrence of that byte is replaced by two of it, and every other byte is kept.
\<close>

definition ReplaceAll_quotes :: "string \<Rightarrow> string" where
  "ReplaceAll_quotes s = concat (map (\<lambda>c. if c = CHR ''\"'' then ''\"\"'' else [c]) s)"

definition quote :: "string \<Rightarrow> string" where
  "quote s = ''\"'' @ ReplaceAll_quotes s @ ''\"''"

definition authFileContents :: "pgbouncer_consts \<Rightarrow> string \<Rightarrow> string" where
  "authFileContents k password =
     (let user1 = quote (postgresqlUser k) @ '' '' @ quote password @ ''\<newline>''
      in user1)"

subsection \<open>clusterINI\<close>

text \<open>The three value sets that \<open>clusterINI\<close> builds, each a map literal of the source.\<close>

definition early :: "pgbouncer_consts \<Rightarrow> iniValueSet" where
  "early k = [''auth_user'' \<mapsto> postgresqlUser k]"

definition defaults :: iniValueSet where
  "defaults = [''ignore_startup_parameters'' \<mapsto> ''extra_float_digits'']"

definition mandatory :: "pgbouncer_consts \<Rightarrow> 32 word \<Rightarrow> iniValueSet" where
  "mandatory k pgBouncerPort =
     [''auth_file'' \<mapsto> authFileAbsolutePath,
      ''auth_query'' \<mapsto> ''SELECT username, password from pgbouncer.get_auth($1)'',
      ''auth_user'' \<mapsto> postgresqlUser k,
      ''client_tls_sslmode'' \<mapsto> ''require'',
      ''client_tls_cert_file'' \<mapsto> certFrontendAbsolutePath k,
      ''client_tls_key_file'' \<mapsto> certFrontendPrivateKeyAbsolutePath k,
      ''client_tls_ca_file'' \<mapsto> certFrontendAuthorityAbsolutePath k,
      ''conffile'' \<mapsto> iniFileAbsolutePath,
      ''listen_addr'' \<mapsto> ''*'',
      ''listen_port'' \<mapsto> Sprint_int32 pgBouncerPort,
      ''server_tls_sslmode'' \<mapsto> ''verify-full'',
      ''server_tls_ca_file'' \<mapsto> certBackendAuthorityAbsolutePath k,
      ''unix_socket_dir'' \<mapsto> []]"

text \<open>
  \<open>clusterINI\<close>. The result is \<open>None\<close> when one of the two port pointers is \<open>nil\<close>
  and the dereference panics. \<open>primaryServiceName\<close> stands for
  \<open>naming.ClusterPrimaryService(cluster).Name\<close>, a function of another package. The
  last three arguments are the iteration orders of the three calls of \<open>String\<close>.
\<close>

definition clusterINI ::
  "pgbouncer_consts \<Rightarrow> (('i, 's) PostgresCluster \<Rightarrow> string) \<Rightarrow> ('i, 's) PostgresCluster \<Rightarrow>
   string list \<Rightarrow> string list \<Rightarrow> string list \<Rightarrow> string option" where
  "clusterINI k primaryServiceName cluster order_early order_defaults order_mandatory =
     (case PGBouncerPodSpec.Port (PGBouncer (Proxy (Spec cluster))) of
        None \<Rightarrow> None
      | Some pgBouncerPort \<Rightarrow>
     (case PostgresClusterSpec.Port (Spec cluster) of
        None \<Rightarrow> None
      | Some postgresPort \<Rightarrow>
          let databases = ''[databases]\<newline>* = host='' @ primaryServiceName cluster @
                          '' port='' @ Sprint_int32 postgresPort @ ''\<newline>''
          in Some (iniGeneratedWarning @
               ''\<newline>[pgbouncer]\<newline>'' @ iniValueSet_String (early k) order_early @ databases @
               ''\<newline>[pgbouncer]\<newline>'' @ iniValueSet_String defaults order_defaults @
               ''\<newline>[pgbouncer]\<newline>'' @
                 iniValueSet_String (mandatory k pgBouncerPort) order_mandatory)))"


section \<open>The PostgresCluster controller (package postgrescluster)\<close>

subsection \<open>Values of the libraries and of the other packages\<close>

text \<open>
  A Go \<open>error\<close> is \<open>nil\<close> (\<open>None\<close>) or an error value. The program tells one kind
  apart, the API server's not-found error, and wraps errors with \<open>errors.WithStack\<close>.
\<close>

datatype error = NotFound | Failure string | Stack error

definition IgnoreNotFound :: "error option \<Rightarrow> error option" where
  "IgnoreNotFound e = (case e of Some NotFound \<Rightarrow> None | _ \<Rightarrow> e)"

definition WithStack :: "error option \<Rightarrow> error option" where
  "WithStack e = map_option Stack e"

text \<open>\<open>reconcile.Result\<close>; \<open>RequeueAfter\<close> is a \<open>time.Duration\<close>, an int64.\<close>

record Result =
  Requeue :: bool
  RequeueAfter :: "64 word"

definition Result_zero :: Result where
  "Result_zero = \<lparr> Requeue = False, RequeueAfter = 0 \<rparr>"

text \<open>\<open>types.NamespacedName\<close>: namespace and name.\<close>

type_synonym NamespacedName = "string \<times> string"

text \<open>Kubernetes objects that the program only hands from one stage to a later one.\<close>

typedecl ConfigMap
typedecl Service
typedecl Secret
typedecl SecretProjection
typedecl RootCertificateAuthority

datatype StatefulSet = StatefulSet (GetName: string)

datatype StatefulSetList = StatefulSetList (Items: "StatefulSet list")

text \<open>
  A rule of \<open>pg_hba.conf\<close> is built by a chain of calls of package postgres, such as
  \<open>postgres.NewHBA().Local().User("postgres").Method("peer")\<close>. The package is not part
  of this file, so a rule is the chain that built it.
\<close>

datatype HostBasedAuthentication =
    NewHBA
  | Local HostBasedAuthentication
  | TCP HostBasedAuthentication
  | TLS HostBasedAuthentication
  | User HostBasedAuthentication string
  | Database HostBasedAuthentication string
  | Replication HostBasedAuthentication
  | Method HostBasedAuthentication string

record HBAs =
  Mandatory :: "HostBasedAuthentication list"
  Default :: "HostBasedAuthentication list"

text \<open>A parameter set of package postgres is the sequence of its \<open>Add\<close> calls.\<close>

type_synonym ParameterSet = "(string \<times> string) list"

definition NewParameterSet :: ParameterSet where
  "NewParameterSet = []"

definition Add :: "ParameterSet \<Rightarrow> string \<Rightarrow> string \<Rightarrow> ParameterSet" where
  "Add ps name v = ps @ [(name, v)]"

record Parameters =
  Mandatory :: ParameterSet
  Default :: ParameterSet

subsection \<open>What a reconcile attempt calls\<close>

text \<open>
  The stage functions, with the arguments and results that the properties below speak
  of: the rule set and the parameters given to the two configuration stages, the index
  of the instance set with the list that came back, the instance names given to
  pgBackRest with the result that came back.
\<close>

datatype stage =
    Stage_PatroniStatus
  | Stage_PGUserSecret
  | Stage_ClusterConfigMap HBAs Parameters
  | Stage_RootCertificate
  | Stage_ClusterPodService
  | Stage_PatroniLeaderLease
  | Stage_ClusterPrimaryService
  | Stage_ClusterCertificate
  | Stage_PatroniDistributedConfiguration
  | Stage_PatroniDynamicConfiguration HBAs Parameters
  | Stage_InstanceSet nat "StatefulSetList option"
  | Stage_PGBackRest "string list" Result
  | Stage_PGBouncer

text \<open>
  Every call that \<open>Reconcile\<close> makes outside itself. \<open>Call_Eventf\<close> holds the event
  type, the reason, the format and its arguments; \<open>Call_StatusPatch\<close> holds the status
  of the snapshot and the status that is sent.
\<close>

datatype 's call =
    Call_Get NamespacedName
  | Call_handleDelete
  | Call_Eventf string string string "string list"
  | Call_Stage stage
  | Call_StatusPatch "'s PostgresClusterStatus_scheme" "'s PostgresClusterStatus_scheme"

subsection \<open>The Reconciler\<close>

text \<open>
  The collaborators of \<open>Reconcile\<close>: the client, the methods of \<open>Reconciler\<close> that other
  files define, and the functions and constants of other files and packages that it
  uses. Each call that reaches the platform takes the state \<open>'w\<close> of
  the platform and returns it updated; \<open>cluster\<close> is a pointer in the source, so a call
  that receives it returns the object as the call left it. A pointer result is an
  option, \<open>None\<close> for \<open>nil\<close>; an error result is \<open>None\<close> for \<open>nil\<close>.
  \<open>reconcileInstanceSet\<close> receives \<open>&cluster.Spec.InstanceSets[i]\<close> as the index \<open>i\<close>.
\<close>

record ('i, 's, 'w) Reconciler =
  Client_Get :: "'w \<Rightarrow> NamespacedName \<Rightarrow> ('i, 's) PostgresCluster \<times> error option"
  Client_Status_Patch ::
    "('i, 's) PostgresCluster \<Rightarrow> ('i, 's) PostgresCluster \<Rightarrow> 'w \<Rightarrow>
     error option \<times> ('i, 's) PostgresCluster \<times> 'w"
  cluster_Default :: "('i, 's) PostgresCluster \<Rightarrow> ('i, 's) PostgresCluster"
  log_V1_Enabled :: bool
  deletion :: "('i, 's) PostgresCluster \<Rightarrow> 'w \<Rightarrow>
     (Result \<times> error option) \<times> ('i, 's) PostgresCluster \<times> 'w"
  poolerHBAs :: "('i, 's) PostgresCluster \<Rightarrow> HostBasedAuthentication list"
  PGReplicationUsername :: string
  updateReconcileResult :: "Result \<Rightarrow> Result \<Rightarrow> Result"
  reconcilePatroniStatus ::
    "('i, 's) PostgresCluster \<Rightarrow> 'w \<Rightarrow> error option \<times> ('i, 's) PostgresCluster \<times> 'w"
  reconcilePGUserSecret ::
    "('i, 's) PostgresCluster \<Rightarrow> 'w \<Rightarrow>
     (Secret option \<times> error option) \<times> ('i, 's) PostgresCluster \<times> 'w"
  reconcileClusterConfigMap ::
    "('i, 's) PostgresCluster \<Rightarrow> HBAs \<Rightarrow> Parameters \<Rightarrow> Secret option \<Rightarrow> 'w \<Rightarrow>
     (ConfigMap option \<times> error option) \<times> ('i, 's) PostgresCluster \<times> 'w"
  reconcileRootCertificate ::
    "('i, 's) PostgresCluster \<Rightarrow> 'w \<Rightarrow>
     (RootCertificateAuthority option \<times> error option) \<times> ('i, 's) PostgresCluster \<times> 'w"
  reconcileClusterPodService ::
    "('i, 's) PostgresCluster \<Rightarrow> 'w \<Rightarrow>
     (Service option \<times> error option) \<times> ('i, 's) PostgresCluster \<times> 'w"
  reconcilePatroniLeaderLease ::
    "('i, 's) PostgresCluster \<Rightarrow> 'w \<Rightarrow>
     (Service option \<times> error option) \<times> ('i, 's) PostgresCluster \<times> 'w"
  reconcileClusterPrimaryService ::
    "('i, 's) PostgresCluster \<Rightarrow> Service option \<Rightarrow> 'w \<Rightarrow>
     error option \<times> ('i, 's) PostgresCluster \<times> 'w"
  reconcileClusterCertificate ::
    "RootCertificateAuthority option \<Rightarrow> ('i, 's) PostgresCluster \<Rightarrow> 'w \<Rightarrow>
     (SecretProjection option \<times> error option) \<times> ('i, 's) PostgresCluster \<times> 'w"
  reconcilePatroniDistributedConfiguration ::
    "('i, 's) PostgresCluster \<Rightarrow> 'w \<Rightarrow> error option \<times> ('i, 's) PostgresCluster \<times> 'w"
  reconcilePatroniDynamicConfiguration ::
    "('i, 's) PostgresCluster \<Rightarrow> HBAs \<Rightarrow> Parameters \<Rightarrow> 'w \<Rightarrow>
     error option \<times> ('i, 's) PostgresCluster \<times> 'w"
  reconcileInstanceSet ::
    "('i, 's) PostgresCluster \<Rightarrow> nat \<Rightarrow> ConfigMap option \<Rightarrow> RootCertificateAuthority option \<Rightarrow>
     Service option \<Rightarrow> Service option \<Rightarrow> SecretProjection option \<Rightarrow> 'w \<Rightarrow>
     (StatefulSetList option \<times> error option) \<times> ('i, 's) PostgresCluster \<times> 'w"
  reconcilePGBackRest ::
    "('i, 's) PostgresCluster \<Rightarrow> string list \<Rightarrow> 'w \<Rightarrow>
     (Result \<times> error option) \<times> ('i, 's) PostgresCluster \<times> 'w"
  reconcilePGBouncer ::
    "('i, 's) PostgresCluster \<Rightarrow> SecretProjection option \<Rightarrow> RootCertificateAuthority option \<Rightarrow>
     'w \<Rightarrow> error option \<times> ('i, 's) PostgresCluster \<times> 'w"

subsection \<open>Deletion\<close>

text \<open>
  Modelled from the spec: the body of \<open>handleDelete\<close> is in another file. Section 4.1,
  step 4: if the object is marked for deletion, run the deletion-specific cleanup and
  return its outcome; nothing is done for an object that is not marked. The cleanup
  itself is the collaborator \<open>deletion\<close>. The result is the pair \<open>(*Result, error)\<close>
  that \<open>Reconcile\<close> tests.
\<close>

definition handleDelete ::
  "('i, 's, 'w) Reconciler \<Rightarrow> ('i, 's) PostgresCluster \<Rightarrow> 'w \<Rightarrow>
   (Result option \<times> error option) \<times> ('i, 's) PostgresCluster \<times> 'w" where
  "handleDelete r c w =
     (case DeletionTimestamp c of
        None \<Rightarrow> ((None, None), c, w)
      | Some t \<Rightarrow>
          (case deletion r c w of ((res, e), c', w') \<Rightarrow> ((Some res, e), c', w')))"

subsection \<open>Access rules and parameters (lines 161 to 183 of Reconcile)\<close>

text \<open>
  Modelled from the spec: \<open>pgbouncer.PostgreSQL(cluster, &pgHBAs)\<close> is in another file.
  Section 4.3, step 3: the pooler-contributed rules follow the mandatory prefix. The
  rules that the pooler contributes are the collaborator \<open>poolerHBAs\<close>.
\<close>

definition pgbouncer_PostgreSQL ::
  "('i, 's, 'w) Reconciler \<Rightarrow> ('i, 's) PostgresCluster \<Rightarrow> HBAs \<Rightarrow> HBAs" where
  "pgbouncer_PostgreSQL r c outHBAs =
     outHBAs\<lparr> HBAs.Mandatory := HBAs.Mandatory outHBAs @ poolerHBAs r c \<rparr>"

definition build_pgHBAs :: "('i, 's, 'w) Reconciler \<Rightarrow> ('i, 's) PostgresCluster \<Rightarrow> HBAs" where
  "build_pgHBAs r c =
     (let h0 = \<lparr> HBAs.Mandatory = [], HBAs.Default = [] \<rparr>;
          h1 = h0\<lparr> HBAs.Mandatory := HBAs.Mandatory h0 @
                 [Method (User (Local NewHBA) ''postgres'') ''peer''] \<rparr>;
          h2 = h1\<lparr> HBAs.Mandatory := HBAs.Mandatory h1 @
                 [Method (Replication (User (TCP NewHBA) (PGReplicationUsername r))) ''md5''] \<rparr>;
          h3 = h2\<lparr> HBAs.Mandatory := HBAs.Mandatory h2 @
                 [Method (Database (User (TCP NewHBA) (PGReplicationUsername r)) ''postgres'')
                    ''md5''] \<rparr>;
          h4 = h3\<lparr> HBAs.Mandatory := HBAs.Mandatory h3 @
                 [Method (User (TCP NewHBA) (PGReplicationUsername r)) ''reject''] \<rparr>;
          h5 = pgbouncer_PostgreSQL r c h4
      in h5\<lparr> HBAs.Default := HBAs.Default h5 @ [Method (TLS NewHBA) ''md5''] \<rparr>)"

definition build_pgParameters :: Parameters where
  "build_pgParameters =
     \<lparr> Parameters.Mandatory =
         Add (Add (Add (Add (Add NewParameterSet
           ''wal_level'' ''logical'')
           ''ssl'' ''on'')
           ''ssl_cert_file'' ''/pgconf/tls/tls.crt'')
           ''ssl_key_file'' ''/pgconf/tls/tls.key'')
           ''ssl_ca_file'' ''/pgconf/tls/ca.crt'',
       Parameters.Default =
         Add (Add NewParameterSet
           ''jit'' ''off'')
           ''password_encryption'' ''scram-sha-256'' \<rparr>"

subsection \<open>The local variables of Reconcile\<close>

text \<open>
  The variables of one call of \<open>Reconcile\<close>, under the names of the source, with the
  state of the platform and the calls made so far, each with the error it returned.
\<close>

record ('i, 's, 'w) frame =
  cluster :: "('i, 's) PostgresCluster"
  before :: "('i, 's) PostgresCluster"
  world :: 'w
  calls :: "('s call \<times> error option) list"
  result :: Result
  err :: "error option"
  clusterConfigMap :: "ConfigMap option"
  clusterPodService :: "Service option"
  patroniLeaderService :: "Service option"
  primaryCertificate :: "SecretProjection option"
  pgUser :: "Secret option"
  rootCA :: "RootCertificateAuthority option"
  instancesNames :: "string list"
  instanceSet :: "StatefulSetList option"

text \<open>What a call of \<open>Reconcile\<close> ends with: its two results, or a panic.\<close>

datatype completion = Returned Result "error option" | Panicked

text \<open>The guard \<open>if err == nil { ... }\<close> around a statement.\<close>

definition if_err_nil ::
  "(('i, 's, 'w) frame \<Rightarrow> ('i, 's, 'w) frame) \<Rightarrow> ('i, 's, 'w) frame \<Rightarrow> ('i, 's, 'w) frame" where
  "if_err_nil body \<sigma> = (if err \<sigma> = None then body \<sigma> else \<sigma>)"

subsection \<open>The statements of the pipeline (lines 185 to 235)\<close>

definition call_reconcilePatroniStatus ::
  "('i, 's, 'w) Reconciler \<Rightarrow> ('i, 's, 'w) frame \<Rightarrow> ('i, 's, 'w) frame" where
  "call_reconcilePatroniStatus r \<sigma> =
     (case reconcilePatroniStatus r (cluster \<sigma>) (world \<sigma>) of (e, c, w) \<Rightarrow>
        \<sigma>\<lparr> cluster := c, world := w, err := e,
           calls := calls \<sigma> @ [(Call_Stage Stage_PatroniStatus, e)] \<rparr>)"

definition call_reconcilePGUserSecret ::
  "('i, 's, 'w) Reconciler \<Rightarrow> ('i, 's, 'w) frame \<Rightarrow> ('i, 's, 'w) frame" where
  "call_reconcilePGUserSecret r \<sigma> =
     (case reconcilePGUserSecret r (cluster \<sigma>) (world \<sigma>) of ((v, e), c, w) \<Rightarrow>
        \<sigma>\<lparr> cluster := c, world := w, pgUser := v, err := e,
           calls := calls \<sigma> @ [(Call_Stage Stage_PGUserSecret, e)] \<rparr>)"

definition call_reconcileClusterConfigMap ::
  "('i, 's, 'w) Reconciler \<Rightarrow> HBAs \<Rightarrow> Parameters \<Rightarrow> ('i, 's, 'w) frame \<Rightarrow> ('i, 's, 'w) frame" where
  "call_reconcileClusterConfigMap r pgHBAs pgParameters \<sigma> =
     (case reconcileClusterConfigMap r (cluster \<sigma>) pgHBAs pgParameters (pgUser \<sigma>) (world \<sigma>) of
        ((v, e), c, w) \<Rightarrow>
        \<sigma>\<lparr> cluster := c, world := w, clusterConfigMap := v, err := e,
           calls := calls \<sigma> @ [(Call_Stage (Stage_ClusterConfigMap pgHBAs pgParameters), e)] \<rparr>)"

definition call_reconcileRootCertificate ::
  "('i, 's, 'w) Reconciler \<Rightarrow> ('i, 's, 'w) frame \<Rightarrow> ('i, 's, 'w) frame" where
  "call_reconcileRootCertificate r \<sigma> =
     (case reconcileRootCertificate r (cluster \<sigma>) (world \<sigma>) of ((v, e), c, w) \<Rightarrow>
        \<sigma>\<lparr> cluster := c, world := w, rootCA := v, err := e,
           calls := calls \<sigma> @ [(Call_Stage Stage_RootCertificate, e)] \<rparr>)"

definition call_reconcileClusterPodService ::
  "('i, 's, 'w) Reconciler \<Rightarrow> ('i, 's, 'w) frame \<Rightarrow> ('i, 's, 'w) frame" where
  "call_reconcileClusterPodService r \<sigma> =
     (case reconcileClusterPodService r (cluster \<sigma>) (world \<sigma>) of ((v, e), c, w) \<Rightarrow>
        \<sigma>\<lparr> cluster := c, world := w, clusterPodService := v, err := e,
           calls := calls \<sigma> @ [(Call_Stage Stage_ClusterPodService, e)] \<rparr>)"

definition call_reconcilePatroniLeaderLease ::
  "('i, 's, 'w) Reconciler \<Rightarrow> ('i, 's, 'w) frame \<Rightarrow> ('i, 's, 'w) frame" where
  "call_reconcilePatroniLeaderLease r \<sigma> =
     (case reconcilePatroniLeaderLease r (cluster \<sigma>) (world \<sigma>) of ((v, e), c, w) \<Rightarrow>
        \<sigma>\<lparr> cluster := c, world := w, patroniLeaderService := v, err := e,
           calls := calls \<sigma> @ [(Call_Stage Stage_PatroniLeaderLease, e)] \<rparr>)"

definition call_reconcileClusterPrimaryService ::
  "('i, 's, 'w) Reconciler \<Rightarrow> ('i, 's, 'w) frame \<Rightarrow> ('i, 's, 'w) frame" where
  "call_reconcileClusterPrimaryService r \<sigma> =
     (case reconcileClusterPrimaryService r (cluster \<sigma>) (patroniLeaderService \<sigma>) (world \<sigma>) of
        (e, c, w) \<Rightarrow>
        \<sigma>\<lparr> cluster := c, world := w, err := e,
           calls := calls \<sigma> @ [(Call_Stage Stage_ClusterPrimaryService, e)] \<rparr>)"

definition call_reconcileClusterCertificate ::
  "('i, 's, 'w) Reconciler \<Rightarrow> ('i, 's, 'w) frame \<Rightarrow> ('i, 's, 'w) frame" where
  "call_reconcileClusterCertificate r \<sigma> =
     (case reconcileClusterCertificate r (rootCA \<sigma>) (cluster \<sigma>) (world \<sigma>) of ((v, e), c, w) \<Rightarrow>
        \<sigma>\<lparr> cluster := c, world := w, primaryCertificate := v, err := e,
           calls := calls \<sigma> @ [(Call_Stage Stage_ClusterCertificate, e)] \<rparr>)"

definition call_reconcilePatroniDistributedConfiguration ::
  "('i, 's, 'w) Reconciler \<Rightarrow> ('i, 's, 'w) frame \<Rightarrow> ('i, 's, 'w) frame" where
  "call_reconcilePatroniDistributedConfiguration r \<sigma> =
     (case reconcilePatroniDistributedConfiguration r (cluster \<sigma>) (world \<sigma>) of (e, c, w) \<Rightarrow>
        \<sigma>\<lparr> cluster := c, world := w, err := e,
           calls := calls \<sigma> @ [(Call_Stage Stage_PatroniDistributedConfiguration, e)] \<rparr>)"

definition call_reconcilePatroniDynamicConfiguration ::
  "('i, 's, 'w) Reconciler \<Rightarrow> HBAs \<Rightarrow> Parameters \<Rightarrow> ('i, 's, 'w) frame \<Rightarrow> ('i, 's, 'w) frame" where
  "call_reconcilePatroniDynamicConfiguration r pgHBAs pgParameters \<sigma> =
     (case reconcilePatroniDynamicConfiguration r (cluster \<sigma>) pgHBAs pgParameters (world \<sigma>) of
        (e, c, w) \<Rightarrow>
        \<sigma>\<lparr> cluster := c, world := w, err := e,
           calls := calls \<sigma> @
             [(Call_Stage (Stage_PatroniDynamicConfiguration pgHBAs pgParameters), e)] \<rparr>)"

text \<open>
  Lines 216 to 228. \<open>range\<close> fixes the number of rounds when the loop starts; each
  round reads the current object. The result is \<open>Inl\<close> with the state reached when
  the round panics: at \<open>instanceSet.Items\<close> when \<open>instanceSet\<close> is \<open>nil\<close>, or at
  \<open>&cluster.Spec.InstanceSets[i]\<close> when a call has shortened the slice.
\<close>

fun instance_sets_loop ::
  "('i, 's, 'w) Reconciler \<Rightarrow> nat \<Rightarrow> nat \<Rightarrow> ('i, 's, 'w) frame \<Rightarrow>
   ('i, 's, 'w) frame + ('i, 's, 'w) frame" where
  "instance_sets_loop r i 0 \<sigma> = Inr \<sigma>"
| "instance_sets_loop r i (Suc n) \<sigma> =
     (if err \<sigma> = None then
        (if i < length (InstanceSets (Spec (cluster \<sigma>))) then
           (case reconcileInstanceSet r (cluster \<sigma>) i (clusterConfigMap \<sigma>) (rootCA \<sigma>)
                   (clusterPodService \<sigma>) (patroniLeaderService \<sigma>) (primaryCertificate \<sigma>)
                   (world \<sigma>) of
              ((v, e), c, w) \<Rightarrow>
                (case v of
                   None \<Rightarrow>
                     Inl (\<sigma>\<lparr> cluster := c, world := w, instanceSet := v, err := e,
                            calls := calls \<sigma> @ [(Call_Stage (Stage_InstanceSet i v), e)] \<rparr>)
                 | Some l \<Rightarrow>
                     instance_sets_loop r (Suc i) n
                       (\<sigma>\<lparr> cluster := c, world := w, instanceSet := v, err := e,
                          calls := calls \<sigma> @ [(Call_Stage (Stage_InstanceSet i v), e)],
                          instancesNames := instancesNames \<sigma> @ map GetName (Items l) \<rparr>)))
         else Inl \<sigma>)
      else instance_sets_loop r (Suc i) n \<sigma>)"

text \<open>
  Line 231, with the closure \<open>updateResult\<close> of lines 87 to 92: the result of the stage
  is merged into \<open>result\<close> when the stage returned no error.
\<close>

definition call_reconcilePGBackRest ::
  "('i, 's, 'w) Reconciler \<Rightarrow> ('i, 's, 'w) frame \<Rightarrow> ('i, 's, 'w) frame" where
  "call_reconcilePGBackRest r \<sigma> =
     (case reconcilePGBackRest r (cluster \<sigma>) (instancesNames \<sigma>) (world \<sigma>) of
        ((next, e), c, w) \<Rightarrow>
        \<sigma>\<lparr> cluster := c, world := w,
           result := (if e = None then updateReconcileResult r (result \<sigma>) next else result \<sigma>),
           err := e,
           calls := calls \<sigma> @ [(Call_Stage (Stage_PGBackRest (instancesNames \<sigma>) next), e)] \<rparr>)"

definition call_reconcilePGBouncer ::
  "('i, 's, 'w) Reconciler \<Rightarrow> ('i, 's, 'w) frame \<Rightarrow> ('i, 's, 'w) frame" where
  "call_reconcilePGBouncer r \<sigma> =
     (case reconcilePGBouncer r (cluster \<sigma>) (primaryCertificate \<sigma>) (rootCA \<sigma>) (world \<sigma>) of
        (e, c, w) \<Rightarrow>
        \<sigma>\<lparr> cluster := c, world := w, err := e,
           calls := calls \<sigma> @ [(Call_Stage Stage_PGBouncer, e)] \<rparr>)"

text \<open>
  The ten guarded statements of lines 185 to 214, in their order.
\<close>

definition front_statements ::
  "('i, 's, 'w) Reconciler \<Rightarrow> HBAs \<Rightarrow> Parameters \<Rightarrow>
   (('i, 's, 'w) frame \<Rightarrow> ('i, 's, 'w) frame) list" where
  "front_statements r pgHBAs pgParameters =
     [if_err_nil (call_reconcilePatroniStatus r),
      if_err_nil (call_reconcilePGUserSecret r),
      if_err_nil (call_reconcileClusterConfigMap r pgHBAs pgParameters),
      if_err_nil (call_reconcileRootCertificate r),
      if_err_nil (call_reconcileClusterPodService r),
      if_err_nil (call_reconcilePatroniLeaderLease r),
      if_err_nil (call_reconcileClusterPrimaryService r),
      if_err_nil (call_reconcileClusterCertificate r),
      if_err_nil (call_reconcilePatroniDistributedConfiguration r),
      if_err_nil (call_reconcilePatroniDynamicConfiguration r pgHBAs pgParameters)]"

text \<open>
  Lines 161 to 235: the rules, the parameters and the stages. Each statement runs on
  the variables that the one before it left.
\<close>

definition pipeline ::
  "('i, 's, 'w) Reconciler \<Rightarrow> ('i, 's, 'w) frame \<Rightarrow> ('i, 's, 'w) frame + ('i, 's, 'w) frame" where
  "pipeline r \<sigma>0 =
     (let pgHBAs = build_pgHBAs r (cluster \<sigma>0);
          pgParameters = build_pgParameters;
          \<sigma>10 = fold (\<lambda>statement \<sigma>. statement \<sigma>)
                  (front_statements r pgHBAs pgParameters) \<sigma>0
      in case instance_sets_loop r 0 (length (InstanceSets (Spec (cluster \<sigma>10))))
                (\<sigma>10\<lparr> instancesNames := [], instanceSet := None \<rparr>) of
           Inl p \<Rightarrow> Inl p
         | Inr \<sigma>11 \<Rightarrow>
             Inr (if_err_nil (call_reconcilePGBouncer r)
                   (if_err_nil (call_reconcilePGBackRest r) \<sigma>11)))"

subsection \<open>The end of Reconcile (lines 239 to 252)\<close>

text \<open>Line 241.\<close>

definition set_ObservedGeneration :: "('i, 's, 'w) frame \<Rightarrow> ('i, 's, 'w) frame" where
  "set_ObservedGeneration \<sigma> =
     \<sigma>\<lparr> cluster := (cluster \<sigma>)\<lparr> Status :=
          (Status (cluster \<sigma>))\<lparr> ObservedGeneration := Generation (cluster \<sigma>) \<rparr> \<rparr> \<rparr>"

text \<open>\<open>equality.Semantic.DeepEqual\<close> on two status values.\<close>

definition DeepEqual ::
  "'s PostgresClusterStatus_scheme \<Rightarrow> 's PostgresClusterStatus_scheme \<Rightarrow> bool" where
  "DeepEqual a b \<longleftrightarrow> a = b"

text \<open>Lines 243 to 248.\<close>

definition patch_status ::
  "('i, 's, 'w) Reconciler \<Rightarrow> ('i, 's, 'w) frame \<Rightarrow> ('i, 's, 'w) frame" where
  "patch_status r \<sigma> =
     (if err \<sigma> = None \<and> \<not> DeepEqual (Status (before \<sigma>)) (Status (cluster \<sigma>)) then
        (case Client_Status_Patch r (cluster \<sigma>) (before \<sigma>) (world \<sigma>) of (e, c, w) \<Rightarrow>
           \<sigma>\<lparr> cluster := c, world := w, err := WithStack e,
              calls := calls \<sigma> @
                [(Call_StatusPatch (Status (before \<sigma>)) (Status (cluster \<sigma>)), e)] \<rparr>)
      else \<sigma>)"

subsection \<open>Reconcile\<close>

text \<open>
  Lines 86 to 147: fetch the object, set its defaults, keep the snapshot, handle
  deletion, refuse the reserved name. The result is \<open>Inl\<close> when \<open>Reconcile\<close> returns
  in these lines, with what it returns and the variables at that point, and \<open>Inr\<close>
  with the variables at line 149 otherwise. Where \<open>Get\<close> fails, the object is as
  \<open>Get\<close> left it and no snapshot has been taken.
\<close>

definition Reconcile_head ::
  "('i, 's, 'w) Reconciler \<Rightarrow> NamespacedName \<Rightarrow> 'w \<Rightarrow>
   (completion \<times> ('i, 's, 'w) frame) + ('i, 's, 'w) frame" where
  "Reconcile_head r request w0 =
     (case Client_Get r w0 request of (c0, gerr) \<Rightarrow>
        let \<sigma>0 = \<lparr> cluster = c0, before = c0, world = w0,
                   calls = [(Call_Get request, gerr)],
                   result = Result_zero, err = None,
                   clusterConfigMap = None, clusterPodService = None,
                   patroniLeaderService = None, primaryCertificate = None,
                   pgUser = None, rootCA = None,
                   instancesNames = [], instanceSet = None \<rparr>
        in
        if gerr \<noteq> None then Inl (Returned (result \<sigma>0) (IgnoreNotFound gerr), \<sigma>0)
        else
          let \<sigma>1 = \<sigma>0\<lparr> cluster := cluster_Default r (cluster \<sigma>0) \<rparr>;
              \<sigma>2 = \<sigma>1\<lparr> before := cluster \<sigma>1 \<rparr>
          in
          (case handleDelete r (cluster \<sigma>2) (world \<sigma>2) of ((dres, derr), c, w) \<Rightarrow>
             let \<sigma>3 = \<sigma>2\<lparr> cluster := c, world := w,
                          calls := calls \<sigma>2 @ [(Call_handleDelete, derr)] \<rparr>
             in
             if derr \<noteq> None then Inl (Returned Result_zero derr, \<sigma>3)
             else
               (case dres of
                  Some res \<Rightarrow>
                    Inl (Returned
                           (if log_V1_Enabled r
                            then (if 0 <s RequeueAfter res then res\<lparr> Requeue := True \<rparr>
                                  else res)
                            else res)
                           None,
                         \<sigma>3)
                | None \<Rightarrow>
                    if Name (cluster \<sigma>3) = ''postgres'' then
                      Inl (Returned (result \<sigma>3) None,
                           \<sigma>3\<lparr> calls := calls \<sigma>3 @
                               [(Call_Eventf ''Warning'' ''InvalidName'' ''%q is not allowed''
                                   [Name (cluster \<sigma>3)], None)] \<rparr>)
                    else Inr \<sigma>3)))"

text \<open>
  \<open>Reconcile\<close>: the lines above, the pipeline, and lines 239 to 252. The result is how
  the call ended and the variables at that point.
\<close>

definition Reconcile ::
  "('i, 's, 'w) Reconciler \<Rightarrow> NamespacedName \<Rightarrow> 'w \<Rightarrow> completion \<times> ('i, 's, 'w) frame" where
  "Reconcile r request w0 =
     (case Reconcile_head r request w0 of
        Inl returned \<Rightarrow> returned
      | Inr \<sigma>3 \<Rightarrow>
          (case pipeline r \<sigma>3 of
             Inl p \<Rightarrow> (Panicked, p)
           | Inr \<sigma>4 \<Rightarrow>
               let \<sigma>5 = patch_status r (set_ObservedGeneration \<sigma>4)
               in (Returned (result \<sigma>5) (err \<sigma>5), \<sigma>5)))"

subsection \<open>One statement of the pipeline, as seen from outside\<close>

text \<open>
  What the properties below need of a statement: the calls made, the error, the result
  and the snapshot. \<open>quiet\<close>: none of them changes. \<open>stage_call\<close>: the statement ran
  with \<open>err\<close> still \<open>nil\<close>, called one stage, recorded it with the error it returned,
  and merged a result only if the stage was pgBackRest and returned no error.
\<close>

definition quiet :: "('i, 's, 'w) frame \<Rightarrow> ('i, 's, 'w) frame \<Rightarrow> bool" where
  "quiet \<sigma> \<sigma>' \<longleftrightarrow>
     calls \<sigma>' = calls \<sigma> \<and> err \<sigma>' = err \<sigma> \<and> result \<sigma>' = result \<sigma> \<and> before \<sigma>' = before \<sigma>"

definition merged_result ::
  "('i, 's, 'w) Reconciler \<Rightarrow> stage \<Rightarrow> error option \<Rightarrow> Result \<Rightarrow> Result" where
  "merged_result r st e res =
     (case st of
        Stage_PGBackRest names next \<Rightarrow>
          (if e = None then updateReconcileResult r res next else res)
      | _ \<Rightarrow> res)"

definition stage_call ::
  "('i, 's, 'w) Reconciler \<Rightarrow> stage \<Rightarrow> ('i, 's, 'w) frame \<Rightarrow> ('i, 's, 'w) frame \<Rightarrow> bool" where
  "stage_call r st \<sigma> \<sigma>' \<longleftrightarrow>
     err \<sigma> = None \<and>
     calls \<sigma>' = calls \<sigma> @ [(Call_Stage st, err \<sigma>')] \<and>
     result \<sigma>' = merged_result r st (err \<sigma>') (result \<sigma>) \<and>
     before \<sigma>' = before \<sigma>"

definition step ::
  "('i, 's, 'w) Reconciler \<Rightarrow> (stage \<Rightarrow> bool) \<Rightarrow> ('i, 's, 'w) frame \<Rightarrow> ('i, 's, 'w) frame \<Rightarrow> bool" where
  "step r P \<sigma> \<sigma>' \<longleftrightarrow> quiet \<sigma> \<sigma>' \<or> (\<exists>st. P st \<and> stage_call r st \<sigma> \<sigma>')"

text \<open>Kinds of stages: the ten of lines 185 to 214 with the rule set they were given,
  an instance set, pgBackRest, PgBouncer.\<close>

fun front_stage :: "HBAs \<Rightarrow> stage \<Rightarrow> bool" where
  "front_stage h0 (Stage_ClusterConfigMap h p) = (h = h0)"
| "front_stage h0 (Stage_PatroniDynamicConfiguration h p) = (h = h0)"
| "front_stage h0 (Stage_InstanceSet i v) = False"
| "front_stage h0 (Stage_PGBackRest names next) = False"
| "front_stage h0 Stage_PGBouncer = False"
| "front_stage h0 st = True"

fun instance_stage :: "bool \<Rightarrow> stage \<Rightarrow> bool" where
  "instance_stage may_be_nil (Stage_InstanceSet i v) = (may_be_nil \<or> v \<noteq> None)"
| "instance_stage may_be_nil st = False"

fun backrest_stage :: "stage \<Rightarrow> bool" where
  "backrest_stage (Stage_PGBackRest names next) = True"
| "backrest_stage st = False"

fun bouncer_stage :: "stage \<Rightarrow> bool" where
  "bouncer_stage Stage_PGBouncer = True"
| "bouncer_stage st = False"

text \<open>Properties of the calls of a run, carried along the pipeline.\<close>

definition only_last_failed :: "('c \<times> error option) list \<Rightarrow> bool" where
  "only_last_failed cs \<longleftrightarrow> (\<forall>x \<in> set (butlast cs). snd x = None)"

definition fail_fast :: "('i, 's, 'w) frame \<Rightarrow> bool" where
  "fail_fast \<sigma> \<longleftrightarrow>
     only_last_failed (calls \<sigma>) \<and> (err \<sigma> = None \<longrightarrow> (\<forall>x \<in> set (calls \<sigma>). snd x = None))"

definition stages_satisfy :: "(stage \<Rightarrow> bool) \<Rightarrow> ('s call \<times> error option) list \<Rightarrow> bool" where
  "stages_satisfy Q cs \<longleftrightarrow> (\<forall>st e. (Call_Stage st, e) \<in> set cs \<longrightarrow> Q st)"

definition result_merged :: "('i, 's, 'w) Reconciler \<Rightarrow> ('i, 's, 'w) frame \<Rightarrow> bool" where
  "result_merged r \<sigma> \<longleftrightarrow>
     (\<forall>names nxt. (Call_Stage (Stage_PGBackRest names nxt), None) \<in> set (calls \<sigma>) \<longrightarrow>
        result \<sigma> = updateReconcileResult r Result_zero nxt) \<and>
     ((\<forall>names nxt. (Call_Stage (Stage_PGBackRest names nxt), None) \<notin> set (calls \<sigma>)) \<longrightarrow>
        result \<sigma> = Result_zero)"

fun given_rules :: "HBAs \<Rightarrow> stage \<Rightarrow> bool" where
  "given_rules h0 (Stage_ClusterConfigMap h p) = (h = h0)"
| "given_rules h0 (Stage_PatroniDynamicConfiguration h p) = (h = h0)"
| "given_rules h0 st = True"

fun list_not_nil :: "stage \<Rightarrow> bool" where
  "list_not_nil (Stage_InstanceSet i v) = (v \<noteq> None)"
| "list_not_nil st = True"

section \<open>Reference notions for the generated artifacts\<close>

subsection \<open>Reading a field of the PgBouncer authentication file\<close>

text \<open>
  The format that the comment in \<open>authFileContents\<close> cites: a field is surrounded by
  double quotes, and two double quotes inside it stand for one. \<open>read_field\<close> reads
  one field from the front of a text and returns its value with the text that follows.
  It is the reader's side of the format, against which the writer is checked.
\<close>

fun read_field_body :: "string \<Rightarrow> (string \<times> string) option" where
  "read_field_body [] = None"
| "read_field_body (c # cs) =
     (if c = CHR ''\"'' then
        (case cs of
           [] \<Rightarrow> Some ([], [])
         | d # ds \<Rightarrow>
             if d = CHR ''\"'' then map_option (apfst (Cons d)) (read_field_body ds)
             else Some ([], cs))
      else map_option (apfst (Cons c)) (read_field_body cs))"

definition read_field :: "string \<Rightarrow> (string \<times> string) option" where
  "read_field s =
     (case s of [] \<Rightarrow> None | c # cs \<Rightarrow> if c = CHR ''\"'' then read_field_body cs else None)"

text \<open>A text is one line when its only newline is its last byte.\<close>

definition single_line :: "string \<Rightarrow> bool" where
  "single_line s \<longleftrightarrow> s \<noteq> [] \<and> last s = CHR ''\<newline>'' \<and> CHR ''\<newline>'' \<notin> set (butlast s)"

section \<open>Example inputs\<close>

definition example_consts :: pgbouncer_consts where
  "example_consts = \<lparr> postgresqlUser = ''_crunchypgbouncer'',
     certFrontendAbsolutePath = ''/etc/pgbouncer/~postgres-operator/frontend-tls.crt'',
     certFrontendPrivateKeyAbsolutePath = ''/etc/pgbouncer/~postgres-operator/frontend-tls.key'',
     certFrontendAuthorityAbsolutePath = ''/etc/pgbouncer/~postgres-operator/frontend-ca.crt'',
     certBackendAuthorityAbsolutePath = ''/etc/pgbouncer/~postgres-operator/backend-ca.crt'' \<rparr>"

definition example_cluster :: "(unit, unit) PostgresCluster" where
  "example_cluster = \<lparr> Name = ''demo'', Generation = 2, DeletionTimestamp = None,
     Spec = \<lparr> Port = Some 5432,
              Proxy = \<lparr> PGBouncer = \<lparr> PGBouncerPodSpec.Port = Some 6432 \<rparr> \<rparr>,
              InstanceSets = [()] \<rparr>,
     Status = \<lparr> ObservedGeneration = 1 \<rparr> \<rparr>"

definition example_primaryServiceName :: "(unit, unit) PostgresCluster \<Rightarrow> string" where
  "example_primaryServiceName c = Name c @ ''-primary''"

definition example_order :: "string list" where
  "example_order =
     [''unix_socket_dir'', ''auth_file'', ''listen_port'', ''auth_user'', ''client_tls_sslmode'',
      ''client_tls_cert_file'', ''conffile'', ''client_tls_ca_file'', ''client_tls_key_file'',
      ''listen_addr'', ''auth_query'', ''server_tls_sslmode'', ''server_tls_ca_file'']"

text \<open>
  An instance of the result aggregation for the examples, after section 4.2 of the
  specification: a request to requeue is kept, and the shorter delay wins.
\<close>

definition example_updateReconcileResult :: "Result \<Rightarrow> Result \<Rightarrow> Result" where
  "example_updateReconcileResult currResult newResult =
     \<lparr> Requeue = (Requeue currResult \<or> Requeue newResult),
       RequeueAfter =
         (if RequeueAfter newResult \<noteq> 0 \<and>
             (RequeueAfter currResult = 0 \<or> RequeueAfter newResult <s RequeueAfter currResult)
          then RequeueAfter newResult else RequeueAfter currResult) \<rparr>"

definition example_error :: "string \<Rightarrow> string \<Rightarrow> error option" where
  "example_error failing s = (if failing = s then Some (Failure s) else None)"

text \<open>
  A Reconciler for the examples. Its platform state counts the writes. The stage named
  \<open>failing\<close> returns an error; pgBackRest and the deletion cleanup return \<open>next\<close>; every
  instance set returns \<open>sets\<close>. \<open>Get\<close> finds the example cluster under the requested name,
  marked for deletion in the namespace \<open>deleting\<close>, and nothing under the name
  \<open>missing\<close>.
\<close>

definition example_Reconciler ::
  "string \<Rightarrow> Result \<Rightarrow> StatefulSetList option \<Rightarrow> bool \<Rightarrow> (unit, unit, nat) Reconciler" where
  "example_Reconciler failing next sets verbose =
     \<lparr> Client_Get = (\<lambda>w request.
         (example_cluster\<lparr> Name := snd request,
            DeletionTimestamp := (if fst request = ''deleting'' then Some 0 else None) \<rparr>,
          if snd request = ''missing'' then Some NotFound else None)),
       Client_Status_Patch = (\<lambda>c b w. (example_error failing ''Status().Patch'', c, Suc w)),
       cluster_Default = (\<lambda>c. c),
       log_V1_Enabled = verbose,
       deletion = (\<lambda>c w. ((next, example_error failing ''handleDelete''), c, Suc w)),
       poolerHBAs = (\<lambda>c. [Method (User (TLS NewHBA) ''_crunchypgbouncer'') ''md5'']),
       PGReplicationUsername = ''_crunchyrepl'',
       updateReconcileResult = example_updateReconcileResult,
       reconcilePatroniStatus = (\<lambda>c w.
         (example_error failing ''reconcilePatroniStatus'', c, w)),
       reconcilePGUserSecret = (\<lambda>c w.
         ((None, example_error failing ''reconcilePGUserSecret''), c, Suc w)),
       reconcileClusterConfigMap = (\<lambda>c h p u w.
         ((None, example_error failing ''reconcileClusterConfigMap''), c, Suc w)),
       reconcileRootCertificate = (\<lambda>c w.
         ((None, example_error failing ''reconcileRootCertificate''), c, Suc w)),
       reconcileClusterPodService = (\<lambda>c w.
         ((None, example_error failing ''reconcileClusterPodService''), c, Suc w)),
       reconcilePatroniLeaderLease = (\<lambda>c w.
         ((None, example_error failing ''reconcilePatroniLeaderLease''), c, Suc w)),
       reconcileClusterPrimaryService = (\<lambda>c s w.
         (example_error failing ''reconcileClusterPrimaryService'', c, Suc w)),
       reconcileClusterCertificate = (\<lambda>ca c w.
         ((None, example_error failing ''reconcileClusterCertificate''), c, Suc w)),
       reconcilePatroniDistributedConfiguration = (\<lambda>c w.
         (example_error failing ''reconcilePatroniDistributedConfiguration'', c, Suc w)),
       reconcilePatroniDynamicConfiguration = (\<lambda>c h p w.
         (example_error failing ''reconcilePatroniDynamicConfiguration'', c, Suc w)),
       reconcileInstanceSet = (\<lambda>c i cm ca s1 s2 cert w.
         ((sets, example_error failing ''reconcileInstanceSet''), c, Suc w)),
       reconcilePGBackRest = (\<lambda>c names w.
         ((next, example_error failing ''reconcilePGBackRest''), c, Suc w)),
       reconcilePGBouncer = (\<lambda>c cert ca w.
         (example_error failing ''reconcilePGBouncer'', c, Suc w)) \<rparr>"

definition example_sets :: "StatefulSetList option" where
  "example_sets = Some (StatefulSetList [StatefulSet ''demo-00''])"

text \<open>A result that asks to come back after ten seconds.\<close>

definition example_result :: Result where
  "example_result = \<lparr> Requeue = False, RequeueAfter = 10000000000 \<rparr>"

text \<open>The variables of an attempt of the example at line 149 and after line 235.\<close>

definition example_at_pipeline :: "(unit, unit, nat) frame" where
  "example_at_pipeline =
     projr (Reconcile_head (example_Reconciler [] example_result example_sets False)
              (''ns'', ''demo'') 0)"

definition example_after_pipeline :: "(unit, unit, nat) frame" where
  "example_after_pipeline =
     projr (pipeline (example_Reconciler [] example_result example_sets False)
              example_at_pipeline)"

section \<open>Properties of the configuration generator\<close>

lemma read_field_body_escaped:
  "rest = [] \<or> hd rest \<noteq> CHR ''\"'' \<Longrightarrow>
   read_field_body (ReplaceAll_quotes s @ CHR ''\"'' # rest) = Some (s, rest)"
  by (induction s) (auto simp: ReplaceAll_quotes_def split: list.splits)

lemma read_field_quote:
  "rest = [] \<or> hd rest \<noteq> CHR ''\"'' \<Longrightarrow> read_field (quote s @ rest) = Some (s, rest)"
  by (simp add: read_field_def quote_def read_field_body_escaped)

lemma set_ReplaceAll_quotes: "set (ReplaceAll_quotes s) = set s"
  by (induction s) (auto simp: ReplaceAll_quotes_def)

lemma newline_quote: "CHR ''\<newline>'' \<in> set (quote s) \<longleftrightarrow> CHR ''\<newline>'' \<in> set s"
  by (simp add: quote_def set_ReplaceAll_quotes)

text \<open>
  C9, as the code has it. For every password, the result of \<open>authFileContents\<close> reads
  back as two quoted fields: the first is the PgBouncer user name, one space follows it,
  the second is the password, unchanged whatever quotes it holds, and one newline ends
  the text. The text is a single line exactly when neither the user name nor the
  password holds a newline byte.
\<close>

theorem authFileContents_format:
  "read_field (authFileContents k password) =
     Some (postgresqlUser k, '' '' @ quote password @ ''\<newline>'')
   \<and> read_field (quote password @ ''\<newline>'') = Some (password, ''\<newline>'')
   \<and> (single_line (authFileContents k password) \<longleftrightarrow>
        CHR ''\<newline>'' \<notin> set (postgresqlUser k) \<and> CHR ''\<newline>'' \<notin> set password)"
proof -
  have a: "read_field (authFileContents k password) =
     Some (postgresqlUser k, '' '' @ quote password @ ''\<newline>'')"
    using read_field_quote [of "'' '' @ quote password @ ''\<newline>''" "postgresqlUser k"]
    by (simp add: authFileContents_def)
  have b: "read_field (quote password @ ''\<newline>'') = Some (password, ''\<newline>'')"
    using read_field_quote [of "''\<newline>''" password] by simp
  have c: "single_line (authFileContents k password) \<longleftrightarrow>
        CHR ''\<newline>'' \<notin> set (postgresqlUser k) \<and> CHR ''\<newline>'' \<notin> set password"
    by (simp add: single_line_def authFileContents_def butlast_append newline_quote)
  from a b c show ?thesis by blast
qed

text \<open>
  C9 as the specification states it fails: a password that is one newline byte gives a
  text of two lines.
\<close>

theorem authFileContents_newline_password:
  "\<not> single_line (authFileContents example_consts ''\<newline>'')"
  by (simp add: single_line_def authFileContents_def example_consts_def quote_def
      ReplaceAll_quotes_def)

lemma sort_range_of:
  assumes "range_of vs ks"
  shows "sort ks = sorted_list_of_set (dom vs)"
proof -
  from assms have "distinct ks" and "dom vs = set ks"
    by (simp_all add: range_of_def)
  then show ?thesis
    by (simp add: sorted_list_of_set_sort_remdups distinct_remdups_id)
qed

lemma String_range_of:
  "range_of vs ks \<Longrightarrow>
   iniValueSet_String vs ks = concat (map (ini_line vs) (sorted_list_of_set (dom vs)))"
  by (simp add: iniValueSet_String_def sort_range_of)

text \<open>
  C8. The generator is deterministic. Whatever order the iteration over a value set takes,
  \<open>String\<close> prints the lines of its keys in increasing lexicographic order, so two
  calls on the same value set agree; \<open>clusterINI\<close> on two clusters with equal specs
  and the same name of the primary service gives the same text (or panics on the same
  \<open>nil\<close> port) whatever the orders of its three iterations; and \<open>authFileContents\<close>
  on equal passwords gives equal bytes.
\<close>

theorem generator_deterministic:
  "(range_of vs ks \<longrightarrow>
      iniValueSet_String vs ks = concat (map (ini_line vs) (sorted_list_of_set (dom vs)))
      \<and> sorted (sorted_list_of_set (dom vs))
      \<and> (range_of vs ks' \<longrightarrow> iniValueSet_String vs ks = iniValueSet_String vs ks'))
   \<and> (range_of (early k) e \<longrightarrow> range_of (early k) e' \<longrightarrow>
       range_of defaults d \<longrightarrow> range_of defaults d' \<longrightarrow>
       (\<forall>p. range_of (mandatory k p) m) \<longrightarrow> (\<forall>p. range_of (mandatory k p) m') \<longrightarrow>
       Spec c = Spec c' \<longrightarrow> nm c = nm c' \<longrightarrow>
       clusterINI k nm c e d m = clusterINI k nm c' e' d' m')
   \<and> (password = password' \<longrightarrow> authFileContents k password = authFileContents k password')"
proof (intro conjI impI)
  assume "range_of vs ks"
  then show "iniValueSet_String vs ks = concat (map (ini_line vs) (sorted_list_of_set (dom vs)))"
    by (rule String_range_of)
next
  show "sorted (sorted_list_of_set (dom vs))" by simp
next
  assume "range_of vs ks" and "range_of vs ks'"
  then show "iniValueSet_String vs ks = iniValueSet_String vs ks'"
    by (simp add: String_range_of)
next
  assume "range_of (early k) e" "range_of (early k) e'"
    "range_of defaults d" "range_of defaults d'"
    "\<forall>p. range_of (mandatory k p) m" "\<forall>p. range_of (mandatory k p) m'"
    "Spec c = Spec c'" "nm c = nm c'"
  then show "clusterINI k nm c e d m = clusterINI k nm c' e' d' m'"
    by (simp add: clusterINI_def String_range_of split: option.splits)
next
  assume "password = password'"
  then show "authFileContents k password = authFileContents k password'" by simp
qed

text \<open>The orders of the example are iterations of the mandatory value set.\<close>

lemma range_of_example_order: "range_of (mandatory k p) example_order"
  by (auto simp: range_of_def mandatory_def example_order_def)

lemma range_of_rev: "range_of vs ks \<Longrightarrow> range_of vs (rev ks)"
  by (simp add: range_of_def)

lemma range_of_early: "range_of (early k) [''auth_user'']"
  by (simp add: range_of_def early_def)

lemma range_of_defaults: "range_of defaults [''ignore_startup_parameters'']"
  by (simp add: range_of_def defaults_def)

theorem generator_deterministic_witness:
  "range_of (mandatory example_consts 6432) example_order
   \<and> range_of (mandatory example_consts 6432) (rev example_order)
   \<and> example_order \<noteq> rev example_order
   \<and> iniValueSet_String (mandatory example_consts 6432) example_order =
       iniValueSet_String (mandatory example_consts 6432) (rev example_order)
   \<and> Spec example_cluster = Spec (example_cluster\<lparr> Generation := 7 \<rparr>)
   \<and> example_primaryServiceName example_cluster =
       example_primaryServiceName (example_cluster\<lparr> Generation := 7 \<rparr>)
   \<and> clusterINI example_consts example_primaryServiceName example_cluster
         [''auth_user''] [''ignore_startup_parameters''] example_order =
       clusterINI example_consts example_primaryServiceName
         (example_cluster\<lparr> Generation := 7 \<rparr>)
         [''auth_user''] [''ignore_startup_parameters''] (rev example_order)
   \<and> authFileContents example_consts ''secret'' = authFileContents example_consts ''secret''"
proof -
  have r1: "range_of (mandatory example_consts 6432) example_order"
    by (rule range_of_example_order)
  have r2: "range_of (mandatory example_consts 6432) (rev example_order)"
    by (rule range_of_rev [OF range_of_example_order])
  have r3: "\<forall>p. range_of (mandatory example_consts p) example_order"
    by (simp add: range_of_example_order)
  have r4: "\<forall>p. range_of (mandatory example_consts p) (rev example_order)"
    by (simp add: range_of_rev [OF range_of_example_order])
  have ne: "example_order \<noteq> rev example_order"
    by (simp add: example_order_def)
  note inst = generator_deterministic [of "mandatory example_consts 6432" example_order
      "rev example_order" example_consts "[''auth_user'']" "[''auth_user'']"
      "[''ignore_startup_parameters'']" "[''ignore_startup_parameters'']"
      example_order "rev example_order" example_cluster
      "example_cluster\<lparr> Generation := 7 \<rparr>" example_primaryServiceName
      "''secret''" "''secret''"]
  have sp: "Spec example_cluster = Spec (example_cluster\<lparr> Generation := 7 \<rparr>)"
    by simp
  have nm: "example_primaryServiceName example_cluster =
       example_primaryServiceName (example_cluster\<lparr> Generation := 7 \<rparr>)"
    by (simp add: example_primaryServiceName_def)
  from inst r1 r2 have s: "iniValueSet_String (mandatory example_consts 6432) example_order =
       iniValueSet_String (mandatory example_consts 6432) (rev example_order)"
    by blast
  from inst r3 r4 range_of_early [of example_consts] range_of_defaults sp nm
  have c: "clusterINI example_consts example_primaryServiceName example_cluster
         [''auth_user''] [''ignore_startup_parameters''] example_order =
       clusterINI example_consts example_primaryServiceName
         (example_cluster\<lparr> Generation := 7 \<rparr>)
         [''auth_user''] [''ignore_startup_parameters''] (rev example_order)"
    by blast
  from r1 r2 ne s sp nm c show ?thesis by simp
qed

section \<open>Properties of Reconcile\<close>

subsection \<open>The example Reconciler, field by field\<close>

lemma example_Reconciler_sel:
  "Client_Get (example_Reconciler failing next sets verbose) =
     (\<lambda>w request.
         (example_cluster\<lparr> Name := snd request,
            DeletionTimestamp := (if fst request = ''deleting'' then Some 0 else None) \<rparr>,
          if snd request = ''missing'' then Some NotFound else None))"
  "Client_Status_Patch (example_Reconciler failing next sets verbose) =
     (\<lambda>c b w. (example_error failing ''Status().Patch'', c, Suc w))"
  "cluster_Default (example_Reconciler failing next sets verbose) =
     (\<lambda>c. c)"
  "log_V1_Enabled (example_Reconciler failing next sets verbose) = verbose"
  "deletion (example_Reconciler failing next sets verbose) =
     (\<lambda>c w. ((next, example_error failing ''handleDelete''), c, Suc w))"
  "poolerHBAs (example_Reconciler failing next sets verbose) =
     (\<lambda>c. [Method (User (TLS NewHBA) ''_crunchypgbouncer'') ''md5''])"
  "PGReplicationUsername (example_Reconciler failing next sets verbose) =
     ''_crunchyrepl''"
  "updateReconcileResult (example_Reconciler failing next sets verbose) =
     example_updateReconcileResult"
  "reconcilePatroniStatus (example_Reconciler failing next sets verbose) =
     (\<lambda>c w.
         (example_error failing ''reconcilePatroniStatus'', c, w))"
  "reconcilePGUserSecret (example_Reconciler failing next sets verbose) =
     (\<lambda>c w.
         ((None, example_error failing ''reconcilePGUserSecret''), c, Suc w))"
  "reconcileClusterConfigMap (example_Reconciler failing next sets verbose) =
     (\<lambda>c h p u w.
         ((None, example_error failing ''reconcileClusterConfigMap''), c, Suc w))"
  "reconcileRootCertificate (example_Reconciler failing next sets verbose) =
     (\<lambda>c w.
         ((None, example_error failing ''reconcileRootCertificate''), c, Suc w))"
  "reconcileClusterPodService (example_Reconciler failing next sets verbose) =
     (\<lambda>c w.
         ((None, example_error failing ''reconcileClusterPodService''), c, Suc w))"
  "reconcilePatroniLeaderLease (example_Reconciler failing next sets verbose) =
     (\<lambda>c w.
         ((None, example_error failing ''reconcilePatroniLeaderLease''), c, Suc w))"
  "reconcileClusterPrimaryService (example_Reconciler failing next sets verbose) =
     (\<lambda>c s w.
         (example_error failing ''reconcileClusterPrimaryService'', c, Suc w))"
  "reconcileClusterCertificate (example_Reconciler failing next sets verbose) =
     (\<lambda>ca c w.
         ((None, example_error failing ''reconcileClusterCertificate''), c, Suc w))"
  "reconcilePatroniDistributedConfiguration (example_Reconciler failing next sets verbose) =
     (\<lambda>c w.
         (example_error failing ''reconcilePatroniDistributedConfiguration'', c, Suc w))"
  "reconcilePatroniDynamicConfiguration (example_Reconciler failing next sets verbose) =
     (\<lambda>c h p w.
         (example_error failing ''reconcilePatroniDynamicConfiguration'', c, Suc w))"
  "reconcileInstanceSet (example_Reconciler failing next sets verbose) =
     (\<lambda>c i cm ca s1 s2 cert w.
         ((sets, example_error failing ''reconcileInstanceSet''), c, Suc w))"
  "reconcilePGBackRest (example_Reconciler failing next sets verbose) =
     (\<lambda>c names w.
         ((next, example_error failing ''reconcilePGBackRest''), c, Suc w))"
  "reconcilePGBouncer (example_Reconciler failing next sets verbose) =
     (\<lambda>c cert ca w.
         (example_error failing ''reconcilePGBouncer'', c, Suc w))"
  by (simp_all add: example_Reconciler_def)

subsection \<open>Each statement is one step\<close>

lemma step_if_err_nil:
  assumes "\<And>\<sigma>. err \<sigma> = None \<Longrightarrow> P st \<and> stage_call r st \<sigma> (body \<sigma>)"
  shows "step r P \<sigma> (if_err_nil body \<sigma>)"
proof (cases "err \<sigma> = None")
  case True
  with assms [of \<sigma>] show ?thesis by (auto simp: step_def if_err_nil_def)
next
  case False
  then show ?thesis by (auto simp: step_def if_err_nil_def quiet_def)
qed

lemma step_reconcilePatroniStatus:
  "step r (front_stage h) \<sigma> (if_err_nil (call_reconcilePatroniStatus r) \<sigma>)"
  by (rule step_if_err_nil [where st = Stage_PatroniStatus])
     (simp add: stage_call_def merged_result_def call_reconcilePatroniStatus_def split: prod.splits)

lemma step_reconcilePGUserSecret:
  "step r (front_stage h) \<sigma> (if_err_nil (call_reconcilePGUserSecret r) \<sigma>)"
  by (rule step_if_err_nil [where st = Stage_PGUserSecret])
     (simp add: stage_call_def merged_result_def call_reconcilePGUserSecret_def split: prod.splits)

lemma step_reconcileClusterConfigMap:
  "step r (front_stage h) \<sigma> (if_err_nil (call_reconcileClusterConfigMap r h p) \<sigma>)"
  by (rule step_if_err_nil [where st = "Stage_ClusterConfigMap h p"])
     (simp add: stage_call_def merged_result_def call_reconcileClusterConfigMap_def
        split: prod.splits)

lemma step_reconcileRootCertificate:
  "step r (front_stage h) \<sigma> (if_err_nil (call_reconcileRootCertificate r) \<sigma>)"
  by (rule step_if_err_nil [where st = Stage_RootCertificate])
     (simp add: stage_call_def merged_result_def call_reconcileRootCertificate_def
        split: prod.splits)

lemma step_reconcileClusterPodService:
  "step r (front_stage h) \<sigma> (if_err_nil (call_reconcileClusterPodService r) \<sigma>)"
  by (rule step_if_err_nil [where st = Stage_ClusterPodService])
     (simp add: stage_call_def merged_result_def call_reconcileClusterPodService_def
        split: prod.splits)

lemma step_reconcilePatroniLeaderLease:
  "step r (front_stage h) \<sigma> (if_err_nil (call_reconcilePatroniLeaderLease r) \<sigma>)"
  by (rule step_if_err_nil [where st = Stage_PatroniLeaderLease])
     (simp add: stage_call_def merged_result_def call_reconcilePatroniLeaderLease_def
        split: prod.splits)

lemma step_reconcileClusterPrimaryService:
  "step r (front_stage h) \<sigma> (if_err_nil (call_reconcileClusterPrimaryService r) \<sigma>)"
  by (rule step_if_err_nil [where st = Stage_ClusterPrimaryService])
     (simp add: stage_call_def merged_result_def call_reconcileClusterPrimaryService_def
        split: prod.splits)

lemma step_reconcileClusterCertificate:
  "step r (front_stage h) \<sigma> (if_err_nil (call_reconcileClusterCertificate r) \<sigma>)"
  by (rule step_if_err_nil [where st = Stage_ClusterCertificate])
     (simp add: stage_call_def merged_result_def call_reconcileClusterCertificate_def
        split: prod.splits)

lemma step_reconcilePatroniDistributedConfiguration:
  "step r (front_stage h) \<sigma> (if_err_nil (call_reconcilePatroniDistributedConfiguration r) \<sigma>)"
  by (rule step_if_err_nil [where st = Stage_PatroniDistributedConfiguration])
     (simp add: stage_call_def merged_result_def call_reconcilePatroniDistributedConfiguration_def
        split: prod.splits)

lemma step_reconcilePatroniDynamicConfiguration:
  "step r (front_stage h) \<sigma> (if_err_nil (call_reconcilePatroniDynamicConfiguration r h p) \<sigma>)"
  by (rule step_if_err_nil [where st = "Stage_PatroniDynamicConfiguration h p"])
     (simp add: stage_call_def merged_result_def call_reconcilePatroniDynamicConfiguration_def
        split: prod.splits)

lemma step_reconcilePGBackRest:
  "step r backrest_stage \<sigma> (if_err_nil (call_reconcilePGBackRest r) \<sigma>)"
proof (cases "err \<sigma> = None")
  case True
  obtain nxt e c w where
    call: "reconcilePGBackRest r (cluster \<sigma>) (instancesNames \<sigma>) (world \<sigma>) = ((nxt, e), c, w)"
    by (metis prod.exhaust)
  from True call
  have "stage_call r (Stage_PGBackRest (instancesNames \<sigma>) nxt) \<sigma> (call_reconcilePGBackRest r \<sigma>)"
    by (simp add: stage_call_def merged_result_def call_reconcilePGBackRest_def)
  with True show ?thesis
    by (auto simp: step_def if_err_nil_def intro!: exI [of _ "Stage_PGBackRest (instancesNames \<sigma>) nxt"])
next
  case False
  then show ?thesis by (auto simp: step_def if_err_nil_def quiet_def)
qed

lemma step_reconcilePGBouncer:
  "step r bouncer_stage \<sigma> (if_err_nil (call_reconcilePGBouncer r) \<sigma>)"
  by (rule step_if_err_nil [where st = Stage_PGBouncer])
     (simp add: stage_call_def merged_result_def call_reconcilePGBouncer_def split: prod.splits)

text \<open>The ten statements of lines 185 to 214.\<close>

lemma steps_fold:
  "(\<And>f \<sigma>. f \<in> set fs \<Longrightarrow> step r P \<sigma> (f \<sigma>)) \<Longrightarrow>
   (step r P)\<^sup>*\<^sup>* \<sigma> (fold (\<lambda>statement \<sigma>. statement \<sigma>) fs \<sigma>)"
proof (induction fs arbitrary: \<sigma>)
  case Nil
  then show ?case by simp
next
  case (Cons f fs)
  have "step r P \<sigma> (f \<sigma>)" by (rule Cons.prems) simp
  moreover have "(step r P)\<^sup>*\<^sup>* (f \<sigma>) (fold (\<lambda>statement \<sigma>. statement \<sigma>) fs (f \<sigma>))"
    by (rule Cons.IH) (simp add: Cons.prems)
  ultimately show ?case by (simp add: converse_rtranclp_into_rtranclp)
qed

lemma steps_front:
  "(step r (front_stage h))\<^sup>*\<^sup>* \<sigma>
     (fold (\<lambda>statement \<sigma>. statement \<sigma>) (front_statements r h p) \<sigma>)"
proof (rule steps_fold)
  fix f and \<sigma> :: "('a, 'b, 'c) frame"
  assume "f \<in> set (front_statements r h p)"
  then show "step r (front_stage h) \<sigma> (f \<sigma>)"
    using step_reconcilePatroniStatus step_reconcilePGUserSecret step_reconcileClusterConfigMap
      step_reconcileRootCertificate step_reconcileClusterPodService
      step_reconcilePatroniLeaderLease step_reconcileClusterPrimaryService
      step_reconcileClusterCertificate step_reconcilePatroniDistributedConfiguration
      step_reconcilePatroniDynamicConfiguration
    by (auto simp: front_statements_def)
qed

text \<open>The loop over the instance sets: a list that is \<open>nil\<close> comes back only in a round
  that panics.\<close>

lemma step_reconcileInstanceSet:
  assumes "err \<sigma> = None"
    and "reconcileInstanceSet r (cluster \<sigma>) i (clusterConfigMap \<sigma>) (rootCA \<sigma>)
           (clusterPodService \<sigma>) (patroniLeaderService \<sigma>) (primaryCertificate \<sigma>) (world \<sigma>) =
         ((v, e), c, w)"
    and "calls \<sigma>' = calls \<sigma> @ [(Call_Stage (Stage_InstanceSet i v), e)]"
    and "err \<sigma>' = e" and "result \<sigma>' = result \<sigma>" and "before \<sigma>' = before \<sigma>"
    and "may_be_nil \<or> v \<noteq> None"
  shows "step r (instance_stage may_be_nil) \<sigma> \<sigma>'"
proof -
  from assms have "stage_call r (Stage_InstanceSet i v) \<sigma> \<sigma>'"
    by (simp add: stage_call_def merged_result_def)
  moreover from assms have "instance_stage may_be_nil (Stage_InstanceSet i v)" by simp
  ultimately show ?thesis unfolding step_def by blast
qed

lemma steps_instance_sets_loop_Inr:
  "instance_sets_loop r i n \<sigma> = Inr \<sigma>' \<Longrightarrow> (step r (instance_stage False))\<^sup>*\<^sup>* \<sigma> \<sigma>'"
proof (induction n arbitrary: i \<sigma>)
  case 0
  then show ?case by simp
next
  case (Suc n)
  show ?case
  proof (cases "err \<sigma> = None")
    case False
    with Suc.prems have "instance_sets_loop r (Suc i) n \<sigma> = Inr \<sigma>'" by simp
    then show ?thesis by (rule Suc.IH)
  next
    case True
    obtain v e c w where call:
      "reconcileInstanceSet r (cluster \<sigma>) i (clusterConfigMap \<sigma>) (rootCA \<sigma>)
         (clusterPodService \<sigma>) (patroniLeaderService \<sigma>) (primaryCertificate \<sigma>) (world \<sigma>) =
       ((v, e), c, w)"
      by (metis prod.exhaust)
    from Suc.prems True call obtain l where v: "v = Some l"
      by (cases v) (auto split: if_splits)
    define \<sigma>2 where "\<sigma>2 = \<sigma>\<lparr> cluster := c, world := w, instanceSet := v, err := e,
        calls := calls \<sigma> @ [(Call_Stage (Stage_InstanceSet i v), e)],
        instancesNames := instancesNames \<sigma> @ map GetName (Items l) \<rparr>"
    from Suc.prems True call v have "instance_sets_loop r (Suc i) n \<sigma>2 = Inr \<sigma>'"
      by (simp add: \<sigma>2_def split: if_splits)
    then have "(step r (instance_stage False))\<^sup>*\<^sup>* \<sigma>2 \<sigma>'" by (rule Suc.IH)
    moreover have "step r (instance_stage False) \<sigma> \<sigma>2"
      by (rule step_reconcileInstanceSet [OF True call]) (simp_all add: \<sigma>2_def v)
    ultimately show ?thesis by (rule converse_rtranclp_into_rtranclp [rotated])
  qed
qed

lemma steps_instance_sets_loop_Inl:
  "instance_sets_loop r i n \<sigma> = Inl \<sigma>' \<Longrightarrow> (step r (instance_stage True))\<^sup>*\<^sup>* \<sigma> \<sigma>'"
proof (induction n arbitrary: i \<sigma>)
  case 0
  then show ?case by simp
next
  case (Suc n)
  show ?case
  proof (cases "err \<sigma> = None")
    case False
    with Suc.prems have "instance_sets_loop r (Suc i) n \<sigma> = Inl \<sigma>'" by simp
    then show ?thesis by (rule Suc.IH)
  next
    case True
    show ?thesis
    proof (cases "i < length (InstanceSets (Spec (cluster \<sigma>)))")
      case False
      with Suc.prems True have "\<sigma>' = \<sigma>" by simp
      then show ?thesis by simp
    next
      case in_range: True
      obtain v e c w where call:
        "reconcileInstanceSet r (cluster \<sigma>) i (clusterConfigMap \<sigma>) (rootCA \<sigma>)
           (clusterPodService \<sigma>) (patroniLeaderService \<sigma>) (primaryCertificate \<sigma>) (world \<sigma>) =
         ((v, e), c, w)"
        by (metis prod.exhaust)
      show ?thesis
      proof (cases v)
        case None
        with Suc.prems True in_range call
        have \<sigma>': "\<sigma>' = \<sigma>\<lparr> cluster := c, world := w, instanceSet := v, err := e,
            calls := calls \<sigma> @ [(Call_Stage (Stage_InstanceSet i v), e)] \<rparr>"
          by simp
        have "step r (instance_stage True) \<sigma> \<sigma>'"
          by (rule step_reconcileInstanceSet [OF True call]) (simp_all add: \<sigma>')
        then show ?thesis by (rule r_into_rtranclp)
      next
        case (Some l)
        define \<sigma>2 where "\<sigma>2 = \<sigma>\<lparr> cluster := c, world := w, instanceSet := v, err := e,
            calls := calls \<sigma> @ [(Call_Stage (Stage_InstanceSet i v), e)],
            instancesNames := instancesNames \<sigma> @ map GetName (Items l) \<rparr>"
        from Suc.prems True in_range call Some
        have "instance_sets_loop r (Suc i) n \<sigma>2 = Inl \<sigma>'"
          by (simp add: \<sigma>2_def)
        then have "(step r (instance_stage True))\<^sup>*\<^sup>* \<sigma>2 \<sigma>'" by (rule Suc.IH)
        moreover have "step r (instance_stage True) \<sigma> \<sigma>2"
          by (rule step_reconcileInstanceSet [OF True call]) (simp_all add: \<sigma>2_def)
        ultimately show ?thesis by (rule converse_rtranclp_into_rtranclp [rotated])
      qed
    qed
  qed
qed

subsection \<open>The pipeline as a sequence of steps\<close>

lemma step_mono: "step r P \<sigma> \<sigma>' \<Longrightarrow> (\<And>st. P st \<Longrightarrow> Q st) \<Longrightarrow> step r Q \<sigma> \<sigma>'"
  unfolding step_def by blast

lemma steps_mono:
  "(step r P)\<^sup>*\<^sup>* \<sigma> \<sigma>' \<Longrightarrow> (\<And>st. P st \<Longrightarrow> Q st) \<Longrightarrow> (step r Q)\<^sup>*\<^sup>* \<sigma> \<sigma>'"
proof (induction rule: rtranclp_induct)
  case base
  show ?case by simp
next
  case (step \<sigma>1 \<sigma>2)
  from step.hyps(2) step.prems have "step r Q \<sigma>1 \<sigma>2" by (rule step_mono)
  with step.IH [OF step.prems] show ?case by (rule rtranclp.rtrancl_into_rtrancl)
qed

lemma pipeline_Inr:
  assumes "pipeline r \<sigma>0 = Inr \<sigma>'"
  obtains \<sigma>a \<sigma>b \<sigma>c where
    "(step r (front_stage (build_pgHBAs r (cluster \<sigma>0))))\<^sup>*\<^sup>* \<sigma>0 \<sigma>a"
    "(step r (instance_stage False))\<^sup>*\<^sup>* \<sigma>a \<sigma>b"
    "step r backrest_stage \<sigma>b \<sigma>c"
    "step r bouncer_stage \<sigma>c \<sigma>'"
proof -
  let ?h = "build_pgHBAs r (cluster \<sigma>0)"
  define \<sigma>10 where "\<sigma>10 = fold (\<lambda>statement \<sigma>. statement \<sigma>)
        (front_statements r ?h build_pgParameters) \<sigma>0"
  define \<sigma>a where "\<sigma>a = \<sigma>10\<lparr> instancesNames := [], instanceSet := None \<rparr>"
  have front: "(step r (front_stage ?h))\<^sup>*\<^sup>* \<sigma>0 \<sigma>10"
    unfolding \<sigma>10_def by (rule steps_front)
  have "step r (front_stage ?h) \<sigma>10 \<sigma>a"
    by (simp add: step_def quiet_def \<sigma>a_def)
  with front have a: "(step r (front_stage ?h))\<^sup>*\<^sup>* \<sigma>0 \<sigma>a"
    by (rule rtranclp.rtrancl_into_rtrancl)
  from assms obtain \<sigma>b where
    loop: "instance_sets_loop r 0 (length (InstanceSets (Spec (cluster \<sigma>10)))) \<sigma>a = Inr \<sigma>b"
    and \<sigma>': "\<sigma>' = if_err_nil (call_reconcilePGBouncer r) (if_err_nil (call_reconcilePGBackRest r) \<sigma>b)"
    unfolding pipeline_def Let_def \<sigma>10_def [symmetric] \<sigma>a_def [symmetric]
    by (auto split: sum.splits)
  from loop have b: "(step r (instance_stage False))\<^sup>*\<^sup>* \<sigma>a \<sigma>b"
    by (rule steps_instance_sets_loop_Inr)
  show thesis
    by (rule that [OF a b step_reconcilePGBackRest]) (simp add: \<sigma>' step_reconcilePGBouncer)
qed

lemma pipeline_Inl:
  assumes "pipeline r \<sigma>0 = Inl p"
  obtains \<sigma>a where
    "(step r (front_stage (build_pgHBAs r (cluster \<sigma>0))))\<^sup>*\<^sup>* \<sigma>0 \<sigma>a"
    "(step r (instance_stage True))\<^sup>*\<^sup>* \<sigma>a p"
proof -
  let ?h = "build_pgHBAs r (cluster \<sigma>0)"
  define \<sigma>10 where "\<sigma>10 = fold (\<lambda>statement \<sigma>. statement \<sigma>)
        (front_statements r ?h build_pgParameters) \<sigma>0"
  define \<sigma>a where "\<sigma>a = \<sigma>10\<lparr> instancesNames := [], instanceSet := None \<rparr>"
  have front: "(step r (front_stage ?h))\<^sup>*\<^sup>* \<sigma>0 \<sigma>10"
    unfolding \<sigma>10_def by (rule steps_front)
  have "step r (front_stage ?h) \<sigma>10 \<sigma>a"
    by (simp add: step_def quiet_def \<sigma>a_def)
  with front have a: "(step r (front_stage ?h))\<^sup>*\<^sup>* \<sigma>0 \<sigma>a"
    by (rule rtranclp.rtrancl_into_rtrancl)
  from assms have
    "instance_sets_loop r 0 (length (InstanceSets (Spec (cluster \<sigma>10)))) \<sigma>a = Inl p"
    unfolding pipeline_def Let_def \<sigma>10_def [symmetric] \<sigma>a_def [symmetric]
    by (auto split: sum.splits)
  then have "(step r (instance_stage True))\<^sup>*\<^sup>* \<sigma>a p"
    by (rule steps_instance_sets_loop_Inl)
  with a show thesis by (rule that)
qed

subsection \<open>What the steps preserve\<close>

lemma stepE:
  assumes "step r P \<sigma> \<sigma>'"
  obtains (quiet) "quiet \<sigma> \<sigma>'" | (call) st where "P st" "stage_call r st \<sigma> \<sigma>'"
  using assms unfolding step_def by blast

lemma merged_result_other: "\<not> backrest_stage st \<Longrightarrow> merged_result r st e res = res"
  by (cases st) (simp_all add: merged_result_def)

lemma merged_result_PGBackRest:
  "merged_result r (Stage_PGBackRest names nxt) e res =
     (if e = None then updateReconcileResult r res nxt else res)"
  by (simp add: merged_result_def)

lemma fail_fast_step:
  assumes "step r P \<sigma> \<sigma>'" "fail_fast \<sigma>"
  shows "fail_fast \<sigma>'"
  using assms(1)
proof (cases rule: stepE)
  case quiet
  with assms(2) show ?thesis by (simp add: quiet_def fail_fast_def)
next
  case (call st)
  then have e: "err \<sigma> = None" and c: "calls \<sigma>' = calls \<sigma> @ [(Call_Stage st, err \<sigma>')]"
    by (simp_all add: stage_call_def)
  from e assms(2) have "\<forall>x \<in> set (calls \<sigma>). snd x = None" by (simp add: fail_fast_def)
  with c show ?thesis by (simp add: fail_fast_def only_last_failed_def)
qed

lemma fail_fast_steps: "(step r P)\<^sup>*\<^sup>* \<sigma> \<sigma>' \<Longrightarrow> fail_fast \<sigma> \<Longrightarrow> fail_fast \<sigma>'"
proof (induction rule: rtranclp_induct)
  case base
  then show ?case .
next
  case (step \<sigma>1 \<sigma>2)
  from step.hyps(2) step.IH [OF step.prems] show ?case by (rule fail_fast_step)
qed

lemma stages_satisfy_step:
  assumes "step r P \<sigma> \<sigma>'" "\<And>st. P st \<Longrightarrow> Q st" "stages_satisfy Q (calls \<sigma>)"
  shows "stages_satisfy Q (calls \<sigma>')"
  using assms(1)
proof (cases rule: stepE)
  case quiet
  with assms(3) show ?thesis by (simp add: quiet_def)
next
  case (call st)
  then have c: "calls \<sigma>' = calls \<sigma> @ [(Call_Stage st, err \<sigma>')]"
    by (simp add: stage_call_def)
  from call(1) have "Q st" by (rule assms(2))
  with c assms(3) show ?thesis unfolding stages_satisfy_def by auto
qed

lemma stages_satisfy_steps:
  assumes "(step r P)\<^sup>*\<^sup>* \<sigma> \<sigma>'" "\<And>st. P st \<Longrightarrow> Q st" "stages_satisfy Q (calls \<sigma>)"
  shows "stages_satisfy Q (calls \<sigma>')"
  using assms(1)
proof (induction rule: rtranclp_induct)
  case base
  show ?case by (rule assms(3))
next
  case (step \<sigma>1 \<sigma>2)
  from step.hyps(2) assms(2) step.IH show ?case by (rule stages_satisfy_step)
qed

lemma result_zero_step:
  assumes "step r P \<sigma> \<sigma>'" "\<And>st. P st \<Longrightarrow> \<not> backrest_stage st" "result \<sigma> = Result_zero"
  shows "result \<sigma>' = Result_zero"
  using assms(1)
proof (cases rule: stepE)
  case quiet
  with assms(3) show ?thesis by (simp add: quiet_def)
next
  case (call st)
  from call(1) have "\<not> backrest_stage st" by (rule assms(2))
  with call(2) assms(3) show ?thesis by (simp add: stage_call_def merged_result_other)
qed

lemma result_zero_steps:
  assumes "(step r P)\<^sup>*\<^sup>* \<sigma> \<sigma>'" "\<And>st. P st \<Longrightarrow> \<not> backrest_stage st" "result \<sigma> = Result_zero"
  shows "result \<sigma>' = Result_zero"
  using assms(1)
proof (induction rule: rtranclp_induct)
  case base
  show ?case by (rule assms(3))
next
  case (step \<sigma>1 \<sigma>2)
  from step.hyps(2) assms(2) step.IH show ?case by (rule result_zero_step)
qed

lemma before_step: "step r P \<sigma> \<sigma>' \<Longrightarrow> before \<sigma>' = before \<sigma>"
  by (erule stepE) (simp_all add: quiet_def stage_call_def)

lemma before_steps: "(step r P)\<^sup>*\<^sup>* \<sigma> \<sigma>' \<Longrightarrow> before \<sigma>' = before \<sigma>"
  by (induction rule: rtranclp_induct) (simp_all add: before_step)

lemma result_merged_zero:
  assumes "result \<sigma> = Result_zero" "stages_satisfy (\<lambda>st. \<not> backrest_stage st) (calls \<sigma>)"
  shows "result_merged r \<sigma>"
proof -
  have "(Call_Stage (Stage_PGBackRest names nxt), e) \<notin> set (calls \<sigma>)" for names nxt e
    using assms(2) unfolding stages_satisfy_def by fastforce
  with assms(1) show ?thesis by (simp add: result_merged_def)
qed

lemma result_merged_backrest:
  assumes "step r backrest_stage \<sigma> \<sigma>'" "result \<sigma> = Result_zero"
    "stages_satisfy (\<lambda>st. \<not> backrest_stage st) (calls \<sigma>)"
  shows "result_merged r \<sigma>'"
  using assms(1)
proof (cases rule: stepE)
  case quiet
  from assms(2,3) have "result_merged r \<sigma>" by (rule result_merged_zero)
  with quiet show ?thesis by (simp add: quiet_def result_merged_def)
next
  case (call st)
  from call(1) obtain names nxt where st: "st = Stage_PGBackRest names nxt"
    by (cases st) simp_all
  have none: "(Call_Stage (Stage_PGBackRest names' nxt'), e) \<notin> set (calls \<sigma>)" for names' nxt' e
    using assms(3) unfolding stages_satisfy_def by fastforce
  from call(2) st have c: "calls \<sigma>' = calls \<sigma> @ [(Call_Stage (Stage_PGBackRest names nxt), err \<sigma>')]"
    and res: "result \<sigma>' = (if err \<sigma>' = None then updateReconcileResult r (result \<sigma>) nxt
                            else result \<sigma>)"
    by (simp_all add: stage_call_def merged_result_PGBackRest)
  show ?thesis
    unfolding result_merged_def
    using c res none assms(2) by auto
qed

lemma result_merged_step:
  assumes "step r P \<sigma> \<sigma>'" "\<And>st. P st \<Longrightarrow> \<not> backrest_stage st" "result_merged r \<sigma>"
  shows "result_merged r \<sigma>'"
  using assms(1)
proof (cases rule: stepE)
  case quiet
  with assms(3) show ?thesis by (simp add: quiet_def result_merged_def)
next
  case (call st)
  from call(1) have nb: "\<not> backrest_stage st" by (rule assms(2))
  with call(2) have c: "calls \<sigma>' = calls \<sigma> @ [(Call_Stage st, err \<sigma>')]"
    and res: "result \<sigma>' = result \<sigma>"
    by (simp_all add: stage_call_def merged_result_other)
  from nb have "st \<noteq> Stage_PGBackRest names nxt" for names nxt by auto
  with c res assms(3) show ?thesis unfolding result_merged_def by auto
qed

subsection \<open>The lines before the pipeline\<close>

lemma Reconcile_head_Inr:
  assumes "Reconcile_head r request w = Inr \<sigma>"
  shows "calls \<sigma> = [(Call_Get request, None), (Call_handleDelete, None)]"
    and "err \<sigma> = None"
    and "result \<sigma> = Result_zero"
    and "before \<sigma> = cluster_Default r (fst (Client_Get r w request))"
  using assms
  by (auto simp: Reconcile_head_def Let_def split: prod.splits if_splits option.splits)

lemma Reconcile_head_Inl:
  assumes "Reconcile_head r request w = Inl (out, \<sigma>)"
  shows "stages_satisfy Q (calls \<sigma>)"
    and "only_last_failed (calls \<sigma>)"
    and "out \<noteq> Panicked"
    and "out = Returned res (Some e) \<Longrightarrow> res = Result_zero"
  using assms
  by (auto simp: Reconcile_head_def Let_def stages_satisfy_def only_last_failed_def
      split: prod.splits if_splits option.splits)

lemma fail_fast_head:
  assumes "Reconcile_head r request w = Inr \<sigma>"
  shows "fail_fast \<sigma>"
  using Reconcile_head_Inr(1,2) [OF assms]
  by (simp add: fail_fast_def only_last_failed_def)

lemma stages_satisfy_head:
  assumes "Reconcile_head r request w = Inr \<sigma>"
  shows "stages_satisfy Q (calls \<sigma>)"
  using Reconcile_head_Inr(1) [OF assms]
  by (simp add: stages_satisfy_def)

subsection \<open>The lines after the pipeline\<close>

lemma calls_set_ObservedGeneration [simp]:
  "calls (set_ObservedGeneration \<sigma>) = calls \<sigma>"
  "err (set_ObservedGeneration \<sigma>) = err \<sigma>"
  "result (set_ObservedGeneration \<sigma>) = result \<sigma>"
  "before (set_ObservedGeneration \<sigma>) = before \<sigma>"
  "world (set_ObservedGeneration \<sigma>) = world \<sigma>"
  by (simp_all add: set_ObservedGeneration_def)

lemma patch_status_cases:
  obtains (skipped) "patch_status r \<sigma> = \<sigma>"
      "err \<sigma> \<noteq> None \<or> Status (before \<sigma>) = Status (cluster \<sigma>)"
  | (patched) e c w where
      "err \<sigma> = None" "Status (before \<sigma>) \<noteq> Status (cluster \<sigma>)"
      "Client_Status_Patch r (cluster \<sigma>) (before \<sigma>) (world \<sigma>) = (e, c, w)"
      "patch_status r \<sigma> = \<sigma>\<lparr> cluster := c, world := w, err := WithStack e,
          calls := calls \<sigma> @ [(Call_StatusPatch (Status (before \<sigma>)) (Status (cluster \<sigma>)), e)] \<rparr>"
proof (cases "err \<sigma> = None \<and> Status (before \<sigma>) \<noteq> Status (cluster \<sigma>)")
  case True
  obtain e c w where "Client_Status_Patch r (cluster \<sigma>) (before \<sigma>) (world \<sigma>) = (e, c, w)"
    by (metis prod.exhaust)
  with True show thesis
    by (intro patched [of e c w]) (simp_all add: patch_status_def DeepEqual_def)
next
  case False
  then show thesis
    by (intro skipped) (auto simp: patch_status_def DeepEqual_def)
qed

lemma fail_fast_patch_status: "fail_fast \<sigma> \<Longrightarrow> fail_fast (patch_status r \<sigma>)"
proof (cases r \<sigma> rule: patch_status_cases)
  case skipped
  assume "fail_fast \<sigma>"
  with skipped show ?thesis by simp
next
  case (patched e c w)
  assume "fail_fast \<sigma>"
  with patched(1) have "\<forall>x \<in> set (calls \<sigma>). snd x = None" by (simp add: fail_fast_def)
  then show ?thesis
    by (simp add: patched(4) fail_fast_def only_last_failed_def WithStack_def)
qed

lemma stages_satisfy_patch_status:
  "stages_satisfy Q (calls \<sigma>) \<Longrightarrow> stages_satisfy Q (calls (patch_status r \<sigma>))"
  by (cases r \<sigma> rule: patch_status_cases) (simp_all add: stages_satisfy_def)

lemma result_merged_patch_status:
  "result_merged r \<sigma> \<Longrightarrow> result_merged r (patch_status r \<sigma>)"
  by (cases r \<sigma> rule: patch_status_cases) (simp_all add: result_merged_def)

lemma result_merged_set_ObservedGeneration:
  "result_merged r \<sigma> \<Longrightarrow> result_merged r (set_ObservedGeneration \<sigma>)"
  by (simp add: result_merged_def)

subsection \<open>The pipeline as a whole\<close>

lemma front_not_backrest: "front_stage h st \<Longrightarrow> \<not> backrest_stage st"
  by (cases st) simp_all

lemma instance_not_backrest: "instance_stage b st \<Longrightarrow> \<not> backrest_stage st"
  by (cases st) simp_all

lemma bouncer_not_backrest: "bouncer_stage st \<Longrightarrow> \<not> backrest_stage st"
  by (cases st) simp_all

lemma front_given_rules: "front_stage h st \<Longrightarrow> given_rules h st"
  by (cases st) simp_all

lemma instance_given_rules: "instance_stage b st \<Longrightarrow> given_rules h st"
  by (cases st) simp_all

lemma backrest_given_rules: "backrest_stage st \<Longrightarrow> given_rules h st"
  by (cases st) simp_all

lemma bouncer_given_rules: "bouncer_stage st \<Longrightarrow> given_rules h st"
  by (cases st) simp_all

lemma front_list_not_nil: "front_stage h st \<Longrightarrow> list_not_nil st"
  by (cases st) simp_all

lemma instance_list_not_nil: "instance_stage False st \<Longrightarrow> list_not_nil st"
  by (cases st) simp_all

lemma backrest_list_not_nil: "backrest_stage st \<Longrightarrow> list_not_nil st"
  by (cases st) simp_all

lemma bouncer_list_not_nil: "bouncer_stage st \<Longrightarrow> list_not_nil st"
  by (cases st) simp_all

lemma fail_fast_pipeline:
  assumes "fail_fast \<sigma>0"
  shows "pipeline r \<sigma>0 = Inr \<sigma>' \<Longrightarrow> fail_fast \<sigma>'"
    and "pipeline r \<sigma>0 = Inl \<sigma>' \<Longrightarrow> fail_fast \<sigma>'"
proof -
  assume "pipeline r \<sigma>0 = Inr \<sigma>'"
  then obtain \<sigma>a \<sigma>b \<sigma>c where
    "(step r (front_stage (build_pgHBAs r (cluster \<sigma>0))))\<^sup>*\<^sup>* \<sigma>0 \<sigma>a"
    "(step r (instance_stage False))\<^sup>*\<^sup>* \<sigma>a \<sigma>b"
    "step r backrest_stage \<sigma>b \<sigma>c"
    "step r bouncer_stage \<sigma>c \<sigma>'"
    by (rule pipeline_Inr)
  with assms show "fail_fast \<sigma>'"
    by (blast intro: fail_fast_steps fail_fast_step)
next
  assume "pipeline r \<sigma>0 = Inl \<sigma>'"
  then obtain \<sigma>a where
    "(step r (front_stage (build_pgHBAs r (cluster \<sigma>0))))\<^sup>*\<^sup>* \<sigma>0 \<sigma>a"
    "(step r (instance_stage True))\<^sup>*\<^sup>* \<sigma>a \<sigma>'"
    by (rule pipeline_Inl)
  with assms show "fail_fast \<sigma>'"
    by (blast intro: fail_fast_steps)
qed

lemma given_rules_pipeline:
  assumes "stages_satisfy (given_rules (build_pgHBAs r (cluster \<sigma>0))) (calls \<sigma>0)"
  shows "pipeline r \<sigma>0 = Inr \<sigma>' \<Longrightarrow>
           stages_satisfy (given_rules (build_pgHBAs r (cluster \<sigma>0))) (calls \<sigma>')"
    and "pipeline r \<sigma>0 = Inl \<sigma>' \<Longrightarrow>
           stages_satisfy (given_rules (build_pgHBAs r (cluster \<sigma>0))) (calls \<sigma>')"
proof -
  let ?h = "build_pgHBAs r (cluster \<sigma>0)"
  assume "pipeline r \<sigma>0 = Inr \<sigma>'"
  then obtain \<sigma>a \<sigma>b \<sigma>c where s:
    "(step r (front_stage ?h))\<^sup>*\<^sup>* \<sigma>0 \<sigma>a"
    "(step r (instance_stage False))\<^sup>*\<^sup>* \<sigma>a \<sigma>b"
    "step r backrest_stage \<sigma>b \<sigma>c"
    "step r bouncer_stage \<sigma>c \<sigma>'"
    by (rule pipeline_Inr)
  from s(1) front_given_rules assms have "stages_satisfy (given_rules ?h) (calls \<sigma>a)"
    by (rule stages_satisfy_steps)
  with s(2) instance_given_rules have "stages_satisfy (given_rules ?h) (calls \<sigma>b)"
    by (rule stages_satisfy_steps)
  with s(3) backrest_given_rules have "stages_satisfy (given_rules ?h) (calls \<sigma>c)"
    by (rule stages_satisfy_step)
  with s(4) bouncer_given_rules show "stages_satisfy (given_rules ?h) (calls \<sigma>')"
    by (rule stages_satisfy_step)
next
  let ?h = "build_pgHBAs r (cluster \<sigma>0)"
  assume "pipeline r \<sigma>0 = Inl \<sigma>'"
  then obtain \<sigma>a where s:
    "(step r (front_stage ?h))\<^sup>*\<^sup>* \<sigma>0 \<sigma>a"
    "(step r (instance_stage True))\<^sup>*\<^sup>* \<sigma>a \<sigma>'"
    by (rule pipeline_Inl)
  from s(1) front_given_rules assms have "stages_satisfy (given_rules ?h) (calls \<sigma>a)"
    by (rule stages_satisfy_steps)
  with s(2) instance_given_rules show "stages_satisfy (given_rules ?h) (calls \<sigma>')"
    by (rule stages_satisfy_steps)
qed

lemma list_not_nil_pipeline:
  assumes "stages_satisfy list_not_nil (calls \<sigma>0)" "pipeline r \<sigma>0 = Inr \<sigma>'"
  shows "stages_satisfy list_not_nil (calls \<sigma>')"
proof -
  from assms(2) obtain \<sigma>a \<sigma>b \<sigma>c where s:
    "(step r (front_stage (build_pgHBAs r (cluster \<sigma>0))))\<^sup>*\<^sup>* \<sigma>0 \<sigma>a"
    "(step r (instance_stage False))\<^sup>*\<^sup>* \<sigma>a \<sigma>b"
    "step r backrest_stage \<sigma>b \<sigma>c"
    "step r bouncer_stage \<sigma>c \<sigma>'"
    by (rule pipeline_Inr)
  from s(1) front_list_not_nil assms(1) have "stages_satisfy list_not_nil (calls \<sigma>a)"
    by (rule stages_satisfy_steps)
  with s(2) instance_list_not_nil have "stages_satisfy list_not_nil (calls \<sigma>b)"
    by (rule stages_satisfy_steps)
  with s(3) backrest_list_not_nil have "stages_satisfy list_not_nil (calls \<sigma>c)"
    by (rule stages_satisfy_step)
  with s(4) bouncer_list_not_nil show ?thesis
    by (rule stages_satisfy_step)
qed

lemma result_merged_pipeline:
  assumes "result \<sigma>0 = Result_zero"
    "stages_satisfy (\<lambda>st. \<not> backrest_stage st) (calls \<sigma>0)"
    "pipeline r \<sigma>0 = Inr \<sigma>'"
  shows "result_merged r \<sigma>'"
proof -
  from assms(3) obtain \<sigma>a \<sigma>b \<sigma>c where s:
    "(step r (front_stage (build_pgHBAs r (cluster \<sigma>0))))\<^sup>*\<^sup>* \<sigma>0 \<sigma>a"
    "(step r (instance_stage False))\<^sup>*\<^sup>* \<sigma>a \<sigma>b"
    "step r backrest_stage \<sigma>b \<sigma>c"
    "step r bouncer_stage \<sigma>c \<sigma>'"
    by (rule pipeline_Inr)
  from s(1) front_not_backrest assms(1) have ra: "result \<sigma>a = Result_zero"
    by (rule result_zero_steps)
  from s(1) front_not_backrest assms(2)
  have ca: "stages_satisfy (\<lambda>st. \<not> backrest_stage st) (calls \<sigma>a)"
    by (rule stages_satisfy_steps)
  from s(2) instance_not_backrest ra have rb: "result \<sigma>b = Result_zero"
    by (rule result_zero_steps)
  from s(2) instance_not_backrest ca
  have cb: "stages_satisfy (\<lambda>st. \<not> backrest_stage st) (calls \<sigma>b)"
    by (rule stages_satisfy_steps)
  from s(3) rb cb have "result_merged r \<sigma>c" by (rule result_merged_backrest)
  with s(4) bouncer_not_backrest show ?thesis by (rule result_merged_step)
qed

subsection \<open>Reconcile as a whole\<close>

lemma Reconcile_cases:
  obtains (head) out \<sigma> where
      "Reconcile_head r request w = Inl (out, \<sigma>)" "Reconcile r request w = (out, \<sigma>)"
  | (panic) \<sigma>3 p where
      "Reconcile_head r request w = Inr \<sigma>3" "pipeline r \<sigma>3 = Inl p"
      "Reconcile r request w = (Panicked, p)"
  | (finished) \<sigma>3 \<sigma>4 where
      "Reconcile_head r request w = Inr \<sigma>3" "pipeline r \<sigma>3 = Inr \<sigma>4"
      "Reconcile r request w =
         (Returned (result (patch_status r (set_ObservedGeneration \<sigma>4)))
                   (err (patch_status r (set_ObservedGeneration \<sigma>4))),
          patch_status r (set_ObservedGeneration \<sigma>4))"
proof (cases "Reconcile_head r request w")
  case (Inl a)
  then show thesis
    by (cases a) (auto intro!: head simp: Reconcile_def)
next
  case (Inr \<sigma>3)
  show thesis
  proof (cases "pipeline r \<sigma>3")
    case (Inl p)
    with Inr show thesis by (intro panic [of \<sigma>3 p]) (simp_all add: Reconcile_def)
  next
    case inr: (Inr \<sigma>4)
    with Inr show thesis
      by (intro finished [of \<sigma>3 \<sigma>4]) (simp_all add: Reconcile_def Let_def)
  qed
qed

lemma Reconcile_only_last_failed: "only_last_failed (calls (snd (Reconcile r request w)))"
proof (cases r request w rule: Reconcile_cases)
  case (head out \<sigma>)
  from Reconcile_head_Inl(2) [OF head(1)] head(2) show ?thesis by simp
next
  case (panic \<sigma>3 p)
  from fail_fast_pipeline(2) [OF fail_fast_head [OF panic(1)] panic(2)] panic(3)
  show ?thesis by (simp add: fail_fast_def)
next
  case (finished \<sigma>3 \<sigma>4)
  from fail_fast_pipeline(1) [OF fail_fast_head [OF finished(1)] finished(2)]
  have "fail_fast (set_ObservedGeneration \<sigma>4)" by (simp add: fail_fast_def)
  then have "fail_fast (patch_status r (set_ObservedGeneration \<sigma>4))"
    by (rule fail_fast_patch_status)
  with finished(3) show ?thesis by (simp add: fail_fast_def)
qed

lemma build_pgHBAs_fields:
  "HBAs.Mandatory (build_pgHBAs r c) =
     [Method (User (Local NewHBA) ''postgres'') ''peer'',
      Method (Replication (User (TCP NewHBA) (PGReplicationUsername r))) ''md5'',
      Method (Database (User (TCP NewHBA) (PGReplicationUsername r)) ''postgres'') ''md5'',
      Method (User (TCP NewHBA) (PGReplicationUsername r)) ''reject''] @ poolerHBAs r c"
  "HBAs.Default (build_pgHBAs r c) = [Method (TLS NewHBA) ''md5'']"
  by (simp_all add: build_pgHBAs_def pgbouncer_PostgreSQL_def Let_def)

lemma Reconcile_given_rules:
  "\<exists>c. stages_satisfy (given_rules (build_pgHBAs r c)) (calls (snd (Reconcile r request w)))"
proof (cases r request w rule: Reconcile_cases)
  case (head out \<sigma>)
  from Reconcile_head_Inl(1) [OF head(1)] head(2) show ?thesis by simp
next
  case (panic \<sigma>3 p)
  from given_rules_pipeline(2) [OF stages_satisfy_head [OF panic(1)] panic(2)] panic(3)
  show ?thesis by auto
next
  case (finished \<sigma>3 \<sigma>4)
  from given_rules_pipeline(1) [OF stages_satisfy_head [OF finished(1)] finished(2)]
  have "stages_satisfy (given_rules (build_pgHBAs r (cluster \<sigma>3)))
          (calls (patch_status r (set_ObservedGeneration \<sigma>4)))"
    by (intro stages_satisfy_patch_status) simp
  with finished(3) show ?thesis by auto
qed

text \<open>
  C6. Nothing is called after a call that returned an error: once a stage has returned
  an error, the record of calls of the attempt ends with that stage, so no later
  stage function runs, and neither does the status patch.
\<close>

theorem Reconcile_fails_fast:
  "calls (snd (Reconcile r request w)) = pre @ (Call_Stage st, Some e) # post \<Longrightarrow> post = []"
proof (rule ccontr)
  assume c: "calls (snd (Reconcile r request w)) = pre @ (Call_Stage st, Some e) # post"
    and "post \<noteq> []"
  then have "(Call_Stage st, Some e) \<in> set (butlast (calls (snd (Reconcile r request w))))"
    by (simp add: butlast_append)
  with Reconcile_only_last_failed [of r request w] show False
    by (auto simp: only_last_failed_def)
qed

text \<open>
  C7. The rule set given to the two configuration stages, \<open>reconcileClusterConfigMap\<close>
  and \<open>reconcilePatroniDynamicConfiguration\<close>, has in its \<open>Mandatory\<close> list the four
  fixed rules first and in their order, then the rules of the pooler, and in its
  \<open>Default\<close> list the one rule for TLS with md5.
\<close>

theorem Reconcile_mandatory_rules_first:
  assumes "(Call_Stage (Stage_ClusterConfigMap h p), e) \<in> set (calls (snd (Reconcile r request w)))
         \<or> (Call_Stage (Stage_PatroniDynamicConfiguration h p), e)
             \<in> set (calls (snd (Reconcile r request w)))"
  shows "\<exists>c. HBAs.Mandatory h =
           [Method (User (Local NewHBA) ''postgres'') ''peer'',
            Method (Replication (User (TCP NewHBA) (PGReplicationUsername r))) ''md5'',
            Method (Database (User (TCP NewHBA) (PGReplicationUsername r)) ''postgres'') ''md5'',
            Method (User (TCP NewHBA) (PGReplicationUsername r)) ''reject''] @ poolerHBAs r c
         \<and> HBAs.Default h = [Method (TLS NewHBA) ''md5'']"
proof -
  from Reconcile_given_rules [of r request w] obtain c where
    "stages_satisfy (given_rules (build_pgHBAs r c)) (calls (snd (Reconcile r request w)))" ..
  with assms have "h = build_pgHBAs r c"
    unfolding stages_satisfy_def by fastforce
  then show ?thesis using build_pgHBAs_fields [of r c] by blast
qed

text \<open>
  C10. The loop reads \<open>instanceSet.Items\<close> whatever error came back with the list. If a
  call of \<open>reconcileInstanceSet\<close> returns a \<open>nil\<close> list, with an error or without one,
  the attempt panics; it does not return the error.
\<close>

theorem Reconcile_nil_list_panics:
  assumes "(Call_Stage (Stage_InstanceSet i None), e) \<in> set (calls (snd (Reconcile r request w)))"
  shows "fst (Reconcile r request w) = Panicked"
proof (cases r request w rule: Reconcile_cases)
  case (head out \<sigma>)
  from Reconcile_head_Inl(1) [OF head(1), of "\<lambda>st. False"] head(2) assms
  show ?thesis by (auto simp: stages_satisfy_def)
next
  case (panic \<sigma>3 p)
  then show ?thesis by simp
next
  case (finished \<sigma>3 \<sigma>4)
  from list_not_nil_pipeline [OF stages_satisfy_head [OF finished(1)] finished(2)]
  have "stages_satisfy list_not_nil (calls (patch_status r (set_ObservedGeneration \<sigma>4)))"
    by (intro stages_satisfy_patch_status) simp
  with finished(3) assms show ?thesis
    by (fastforce simp: stages_satisfy_def)
qed

text \<open>
  C4, as the code has it. When \<open>Reconcile\<close> returns an error, it returns with it the
  result that the stages before the failure left: the zero value if pgBackRest has not
  returned without error, and otherwise the zero value merged with the result of
  pgBackRest. The result of a stage that failed is never merged.
\<close>

theorem Reconcile_error_result:
  assumes "Reconcile r request w = (Returned res (Some e), \<sigma>)"
  shows "((\<forall>names nxt. (Call_Stage (Stage_PGBackRest names nxt), None) \<notin> set (calls \<sigma>)) \<longrightarrow>
            res = Result_zero)
       \<and> (\<forall>names nxt. (Call_Stage (Stage_PGBackRest names nxt), None) \<in> set (calls \<sigma>) \<longrightarrow>
            res = updateReconcileResult r Result_zero nxt)"
proof (cases r request w rule: Reconcile_cases)
  case (head out \<sigma>')
  with assms have h: "Reconcile_head r request w = Inl (Returned res (Some e), \<sigma>)" by simp
  from Reconcile_head_Inl(4) [OF h] have "res = Result_zero" by simp
  moreover from Reconcile_head_Inl(1) [OF h, of "\<lambda>st. False"]
  have "(Call_Stage (Stage_PGBackRest names nxt), None) \<notin> set (calls \<sigma>)" for names nxt
    by (auto simp: stages_satisfy_def)
  ultimately show ?thesis by simp
next
  case (panic \<sigma>3 p)
  with assms show ?thesis by simp
next
  case (finished \<sigma>3 \<sigma>4)
  from Reconcile_head_Inr(3) [OF finished(1)] stages_satisfy_head [OF finished(1)] finished(2)
  have "result_merged r \<sigma>4" by (rule result_merged_pipeline)
  then have "result_merged r (patch_status r (set_ObservedGeneration \<sigma>4))"
    by (intro result_merged_patch_status result_merged_set_ObservedGeneration)
  with finished(3) assms show ?thesis by (simp add: result_merged_def)
qed

lemma no_patch_step:
  assumes "step r P \<sigma> \<sigma>'" "\<forall>b s e. (Call_StatusPatch b s, e) \<notin> set (calls \<sigma>)"
  shows "\<forall>b s e. (Call_StatusPatch b s, e) \<notin> set (calls \<sigma>')"
  using assms(1)
proof (cases rule: stepE)
  case quiet
  with assms(2) show ?thesis by (simp add: quiet_def)
next
  case (call st)
  then have "calls \<sigma>' = calls \<sigma> @ [(Call_Stage st, err \<sigma>')]" by (simp add: stage_call_def)
  with assms(2) show ?thesis by simp
qed

lemma no_patch_steps:
  assumes "(step r P)\<^sup>*\<^sup>* \<sigma> \<sigma>'" "\<forall>b s e. (Call_StatusPatch b s, e) \<notin> set (calls \<sigma>)"
  shows "\<forall>b s e. (Call_StatusPatch b s, e) \<notin> set (calls \<sigma>')"
  using assms(1)
proof (induction rule: rtranclp_induct)
  case base
  show ?case by (rule assms(2))
next
  case (step \<sigma>1 \<sigma>2)
  from step.hyps(2) step.IH show ?case by (rule no_patch_step)
qed

lemma pipeline_before_and_patch:
  assumes "pipeline r \<sigma>0 = Inr \<sigma>'" "\<forall>b s e. (Call_StatusPatch b s, e) \<notin> set (calls \<sigma>0)"
  shows "before \<sigma>' = before \<sigma>0" and "\<forall>b s e. (Call_StatusPatch b s, e) \<notin> set (calls \<sigma>')"
proof -
  from assms(1) obtain \<sigma>a \<sigma>b \<sigma>c where s:
    "(step r (front_stage (build_pgHBAs r (cluster \<sigma>0))))\<^sup>*\<^sup>* \<sigma>0 \<sigma>a"
    "(step r (instance_stage False))\<^sup>*\<^sup>* \<sigma>a \<sigma>b"
    "step r backrest_stage \<sigma>b \<sigma>c"
    "step r bouncer_stage \<sigma>c \<sigma>'"
    by (rule pipeline_Inr)
  from s show "before \<sigma>' = before \<sigma>0"
    by (simp add: before_steps before_step)
  from s(1) assms(2) have "\<forall>b s e. (Call_StatusPatch b s, e) \<notin> set (calls \<sigma>a)"
    by (rule no_patch_steps)
  with s(2) have "\<forall>b s e. (Call_StatusPatch b s, e) \<notin> set (calls \<sigma>b)"
    by (rule no_patch_steps)
  with s(3) have "\<forall>b s e. (Call_StatusPatch b s, e) \<notin> set (calls \<sigma>c)"
    by (rule no_patch_step)
  with s(4) show "\<forall>b s e. (Call_StatusPatch b s, e) \<notin> set (calls \<sigma>')"
    by (rule no_patch_step)
qed

text \<open>
  C2. When the pipeline has run without error, the status is patched if and only if
  the status of the object, with the observed generation set, differs from the status
  of the snapshot. When the two are equal, the attempt makes no further call and leaves
  the platform as the pipeline left it.
\<close>

theorem status_patched_iff_changed:
  assumes "Reconcile_head r request w = Inr \<sigma>3"
    and "pipeline r \<sigma>3 = Inr \<sigma>4"
    and "err \<sigma>4 = None"
  shows "((\<exists>b s e. (Call_StatusPatch b s, e) \<in> set (calls (snd (Reconcile r request w)))) \<longleftrightarrow>
           Status (cluster (set_ObservedGeneration \<sigma>4)) \<noteq> Status (before \<sigma>3))
       \<and> (Status (cluster (set_ObservedGeneration \<sigma>4)) = Status (before \<sigma>3) \<longrightarrow>
            calls (snd (Reconcile r request w)) = calls \<sigma>4 \<and>
            world (snd (Reconcile r request w)) = world \<sigma>4)
       \<and> (\<forall>b s e. (Call_StatusPatch b s, e) \<in> set (calls (snd (Reconcile r request w))) \<longrightarrow>
            b = Status (before \<sigma>3) \<and> s = Status (cluster (set_ObservedGeneration \<sigma>4)))"
proof -
  let ?\<sigma> = "set_ObservedGeneration \<sigma>4"
  have R: "snd (Reconcile r request w) = patch_status r ?\<sigma>"
    using assms(1,2) by (simp add: Reconcile_def Let_def)
  have "\<forall>b s e. (Call_StatusPatch b s, e) \<notin> set (calls \<sigma>3)"
    using Reconcile_head_Inr(1) [OF assms(1)] by simp
  with assms(2) have b: "before \<sigma>4 = before \<sigma>3"
    and n: "\<forall>b s e. (Call_StatusPatch b s, e) \<notin> set (calls \<sigma>4)"
    by (rule pipeline_before_and_patch)+
  show ?thesis
  proof (cases r ?\<sigma> rule: patch_status_cases)
    case skipped
    with assms(3) have "Status (cluster ?\<sigma>) = Status (before \<sigma>3)" by (simp add: b)
    with skipped(1) n show ?thesis by (simp add: R)
  next
    case (patched e c w')
    from patched(2) have "Status (cluster ?\<sigma>) \<noteq> Status (before \<sigma>3)" by (simp add: b)
    with n show ?thesis by (auto simp: R patched(4) b)
  qed
qed

text \<open>
  C3. A cluster named \<open>postgres\<close> that is not marked for deletion: the attempt records
  the warning event \<open>InvalidName\<close>, calls no stage and patches no status, leaves the
  platform as it was, and returns the empty result and no error.
\<close>

theorem Reconcile_reserved_name:
  assumes "Client_Get r w request = (c0, None)"
    and "Name (cluster_Default r c0) = ''postgres''"
    and "DeletionTimestamp (cluster_Default r c0) = None"
  shows "fst (Reconcile r request w) = Returned Result_zero None
       \<and> calls (snd (Reconcile r request w)) =
           [(Call_Get request, None), (Call_handleDelete, None),
            (Call_Eventf ''Warning'' ''InvalidName'' ''%q is not allowed'' [''postgres''], None)]
       \<and> world (snd (Reconcile r request w)) = w"
  using assms
  by (simp add: Reconcile_def Reconcile_head_def handleDelete_def Let_def)

text \<open>
  C5, as the code has it. A cluster that is marked for deletion: the attempt calls the
  deletion handler and nothing after it. If the handler returns an error, the attempt
  returns that error with the empty result. Otherwise it returns the result of the
  handler, in which \<open>Requeue\<close> has been set when logging at level 1 is enabled and
  \<open>RequeueAfter\<close> is positive.
\<close>

theorem Reconcile_deletion:
  assumes "Client_Get r w request = (c0, None)"
    and "DeletionTimestamp (cluster_Default r c0) = Some t"
    and "deletion r (cluster_Default r c0) w = ((res, e), c', w')"
  shows "fst (Reconcile r request w) =
           (case e of
              Some x \<Rightarrow> Returned Result_zero (Some x)
            | None \<Rightarrow>
                Returned (if log_V1_Enabled r \<and> 0 <s RequeueAfter res
                          then res\<lparr> Requeue := True \<rparr> else res) None)
       \<and> calls (snd (Reconcile r request w)) = [(Call_Get request, None), (Call_handleDelete, e)]
       \<and> world (snd (Reconcile r request w)) = w'"
  using assms
  by (simp add: Reconcile_def Reconcile_head_def handleDelete_def Let_def split: option.splits)

subsection \<open>Runs of the example\<close>

lemmas Reconcile_eval =
  Reconcile_def Reconcile_head_def handleDelete_def pipeline_def front_statements_def
  if_err_nil_def call_reconcilePatroniStatus_def call_reconcilePGUserSecret_def
  call_reconcileClusterConfigMap_def call_reconcileRootCertificate_def
  call_reconcileClusterPodService_def call_reconcilePatroniLeaderLease_def
  call_reconcileClusterPrimaryService_def call_reconcileClusterCertificate_def
  call_reconcilePatroniDistributedConfiguration_def call_reconcilePatroniDynamicConfiguration_def
  call_reconcilePGBackRest_def call_reconcilePGBouncer_def
  set_ObservedGeneration_def patch_status_def DeepEqual_def Result_zero_def WithStack_def
  IgnoreNotFound_def Let_def
  example_Reconciler_sel example_cluster_def example_error_def example_sets_def
  example_updateReconcileResult_def example_result_def

text \<open>
  C1 fails on the code. The first stage returns an error; the object has generation 2
  and observed generation 1. Line 241 is not guarded, so the observed generation of the
  object in memory becomes 2, although the comment above it says that everything has
  been reconciled at that point. The error is returned and no status is patched.
\<close>

theorem ObservedGeneration_set_after_failed_stage:
  "fst (Reconcile (example_Reconciler ''reconcilePatroniStatus'' example_result example_sets False)
          (''ns'', ''demo'') 0) =
     Returned Result_zero (Some (Failure ''reconcilePatroniStatus''))
   \<and> calls (snd (Reconcile
        (example_Reconciler ''reconcilePatroniStatus'' example_result example_sets False)
        (''ns'', ''demo'') 0)) =
       [(Call_Get (''ns'', ''demo''), None), (Call_handleDelete, None),
        (Call_Stage Stage_PatroniStatus, Some (Failure ''reconcilePatroniStatus''))]
   \<and> ObservedGeneration (Status (before (snd (Reconcile
        (example_Reconciler ''reconcilePatroniStatus'' example_result example_sets False)
        (''ns'', ''demo'') 0)))) = 1
   \<and> ObservedGeneration (Status (cluster (snd (Reconcile
        (example_Reconciler ''reconcilePatroniStatus'' example_result example_sets False)
        (''ns'', ''demo'') 0)))) = 2"
proof -
  have "\<exists>\<sigma>. Reconcile
          (example_Reconciler ''reconcilePatroniStatus'' example_result example_sets False)
          (''ns'', ''demo'') 0 =
        (Returned Result_zero (Some (Failure ''reconcilePatroniStatus'')), \<sigma>)
      \<and> calls \<sigma> = [(Call_Get (''ns'', ''demo''), None), (Call_handleDelete, None),
                    (Call_Stage Stage_PatroniStatus, Some (Failure ''reconcilePatroniStatus''))]
      \<and> ObservedGeneration (Status (before \<sigma>)) = 1
      \<and> ObservedGeneration (Status (cluster \<sigma>)) = 2"
    by (simp add: Reconcile_eval)
  then show ?thesis by auto
qed

lemma run_bouncer_fails:
  "\<exists>\<sigma>. Reconcile (example_Reconciler ''reconcilePGBouncer'' example_result example_sets False)
          (''ns'', ''demo'') 0 =
        (Returned example_result (Some (Failure ''reconcilePGBouncer'')), \<sigma>)
      \<and> (Call_Stage (Stage_PGBackRest [''demo-00''] example_result), None) \<in> set (calls \<sigma>)"
  by (simp add: Reconcile_eval)

text \<open>
  C4 as the specification states it fails: pgBackRest asks to come back after ten
  seconds, PgBouncer fails, and the error is returned with that delay.
\<close>

theorem Reconcile_error_with_delay:
  "fst (Reconcile (example_Reconciler ''reconcilePGBouncer'' example_result example_sets False)
          (''ns'', ''demo'') 0) =
     Returned \<lparr> Requeue = False, RequeueAfter = 10000000000 \<rparr>
       (Some (Failure ''reconcilePGBouncer''))
   \<and> \<lparr> Requeue = False, RequeueAfter = 10000000000 \<rparr> \<noteq> Result_zero"
  using run_bouncer_fails by (auto simp: example_result_def Result_zero_def)

theorem Reconcile_error_result_witness:
  "fst (Reconcile (example_Reconciler ''reconcilePGBouncer'' example_result example_sets False)
          (''ns'', ''demo'') 0) =
     Returned example_result (Some (Failure ''reconcilePGBouncer''))
   \<and> (Call_Stage (Stage_PGBackRest [''demo-00''] example_result), None)
       \<in> set (calls (snd (Reconcile
            (example_Reconciler ''reconcilePGBouncer'' example_result example_sets False)
            (''ns'', ''demo'') 0)))
   \<and> example_result = example_updateReconcileResult Result_zero example_result"
proof -
  from run_bouncer_fails obtain \<sigma> where
    run: "Reconcile (example_Reconciler ''reconcilePGBouncer'' example_result example_sets False)
            (''ns'', ''demo'') 0 =
          (Returned example_result (Some (Failure ''reconcilePGBouncer'')), \<sigma>)"
    and backrest: "(Call_Stage (Stage_PGBackRest [''demo-00''] example_result), None)
                     \<in> set (calls \<sigma>)"
    by blast
  from Reconcile_error_result [OF run] backrest
  have "example_result =
          updateReconcileResult
            (example_Reconciler ''reconcilePGBouncer'' example_result example_sets False)
            Result_zero example_result"
    by blast
  with run backrest show ?thesis by (simp add: example_Reconciler_sel)
qed

theorem Reconcile_fails_fast_witness:
  "calls (snd (Reconcile
      (example_Reconciler ''reconcilePGUserSecret'' example_result example_sets False)
      (''ns'', ''demo'') 0)) =
     [(Call_Get (''ns'', ''demo''), None), (Call_handleDelete, None),
      (Call_Stage Stage_PatroniStatus, None)] @
     (Call_Stage Stage_PGUserSecret, Some (Failure ''reconcilePGUserSecret'')) # []
   \<and> ([] :: (unit call \<times> error option) list) = []"
proof -
  have c: "calls (snd (Reconcile
      (example_Reconciler ''reconcilePGUserSecret'' example_result example_sets False)
      (''ns'', ''demo'') 0)) =
     [(Call_Get (''ns'', ''demo''), None), (Call_handleDelete, None),
      (Call_Stage Stage_PatroniStatus, None)] @
     (Call_Stage Stage_PGUserSecret, Some (Failure ''reconcilePGUserSecret'')) # []"
    by (simp add: Reconcile_eval)
  from c Reconcile_fails_fast [OF c] show ?thesis by blast
qed

theorem Reconcile_mandatory_rules_first_witness:
  "(Call_Stage (Stage_ClusterConfigMap
       \<lparr> HBAs.Mandatory =
           [Method (User (Local NewHBA) ''postgres'') ''peer'',
            Method (Replication (User (TCP NewHBA) ''_crunchyrepl'')) ''md5'',
            Method (Database (User (TCP NewHBA) ''_crunchyrepl'') ''postgres'') ''md5'',
            Method (User (TCP NewHBA) ''_crunchyrepl'') ''reject'',
            Method (User (TLS NewHBA) ''_crunchypgbouncer'') ''md5''],
         HBAs.Default = [Method (TLS NewHBA) ''md5''] \<rparr>
       build_pgParameters), Some (Failure ''reconcileClusterConfigMap''))
     \<in> set (calls (snd (Reconcile
          (example_Reconciler ''reconcileClusterConfigMap'' example_result example_sets False)
          (''ns'', ''demo'') 0)))
   \<and> (\<exists>c. [Method (User (Local NewHBA) ''postgres'') ''peer'',
            Method (Replication (User (TCP NewHBA) ''_crunchyrepl'')) ''md5'',
            Method (Database (User (TCP NewHBA) ''_crunchyrepl'') ''postgres'') ''md5'',
            Method (User (TCP NewHBA) ''_crunchyrepl'') ''reject'',
            Method (User (TLS NewHBA) ''_crunchypgbouncer'') ''md5''] =
           [Method (User (Local NewHBA) ''postgres'') ''peer'',
            Method (Replication (User (TCP NewHBA) ''_crunchyrepl'')) ''md5'',
            Method (Database (User (TCP NewHBA) ''_crunchyrepl'') ''postgres'') ''md5'',
            Method (User (TCP NewHBA) ''_crunchyrepl'') ''reject''] @
           poolerHBAs
             (example_Reconciler ''reconcileClusterConfigMap'' example_result example_sets False)
             (c :: (unit, unit) PostgresCluster))"
proof -
  have m: "(Call_Stage (Stage_ClusterConfigMap
       \<lparr> HBAs.Mandatory =
           [Method (User (Local NewHBA) ''postgres'') ''peer'',
            Method (Replication (User (TCP NewHBA) ''_crunchyrepl'')) ''md5'',
            Method (Database (User (TCP NewHBA) ''_crunchyrepl'') ''postgres'') ''md5'',
            Method (User (TCP NewHBA) ''_crunchyrepl'') ''reject'',
            Method (User (TLS NewHBA) ''_crunchypgbouncer'') ''md5''],
         HBAs.Default = [Method (TLS NewHBA) ''md5''] \<rparr>
       build_pgParameters), Some (Failure ''reconcileClusterConfigMap''))
     \<in> set (calls (snd (Reconcile
          (example_Reconciler ''reconcileClusterConfigMap'' example_result example_sets False)
          (''ns'', ''demo'') 0)))"
    by (simp add: Reconcile_eval build_pgHBAs_def pgbouncer_PostgreSQL_def)
  from Reconcile_mandatory_rules_first [OF disjI1 [OF m]] m show ?thesis
    by (simp add: example_Reconciler_sel)
qed

theorem Reconcile_nil_list_panics_witness:
  "(Call_Stage (Stage_InstanceSet 0 None), Some (Failure ''reconcileInstanceSet''))
     \<in> set (calls (snd (Reconcile
          (example_Reconciler ''reconcileInstanceSet'' example_result None False)
          (''ns'', ''demo'') 0)))
   \<and> fst (Reconcile (example_Reconciler ''reconcileInstanceSet'' example_result None False)
          (''ns'', ''demo'') 0) = Panicked"
proof -
  have m: "(Call_Stage (Stage_InstanceSet 0 None), Some (Failure ''reconcileInstanceSet''))
     \<in> set (calls (snd (Reconcile
          (example_Reconciler ''reconcileInstanceSet'' example_result None False)
          (''ns'', ''demo'') 0)))"
    by (simp add: Reconcile_eval)
  from m Reconcile_nil_list_panics [OF m] show ?thesis by blast
qed

theorem status_patched_iff_changed_witness:
  "Reconcile_head (example_Reconciler [] example_result example_sets False) (''ns'', ''demo'') 0 =
     Inr example_at_pipeline
   \<and> pipeline (example_Reconciler [] example_result example_sets False) example_at_pipeline =
       Inr example_after_pipeline
   \<and> err example_after_pipeline = None
   \<and> Status (cluster (set_ObservedGeneration example_after_pipeline)) \<noteq>
       Status (before example_at_pipeline)
   \<and> (\<exists>b s e. (Call_StatusPatch b s, e) \<in> set (calls (snd (Reconcile
          (example_Reconciler [] example_result example_sets False) (''ns'', ''demo'') 0))))"
proof -
  have h: "Reconcile_head (example_Reconciler [] example_result example_sets False)
             (''ns'', ''demo'') 0 = Inr example_at_pipeline"
    by (simp add: example_at_pipeline_def Reconcile_eval)
  have at: "example_at_pipeline =
      \<lparr> cluster = example_cluster\<lparr> Name := ''demo'', DeletionTimestamp := None \<rparr>,
        before = example_cluster\<lparr> Name := ''demo'', DeletionTimestamp := None \<rparr>,
        world = 0,
        calls = [(Call_Get (''ns'', ''demo''), None), (Call_handleDelete, None)],
        result = Result_zero, err = None,
        clusterConfigMap = None, clusterPodService = None,
        patroniLeaderService = None, primaryCertificate = None,
        pgUser = None, rootCA = None,
        instancesNames = [], instanceSet = None \<rparr>"
    by (simp add: example_at_pipeline_def Reconcile_head_def handleDelete_def Let_def
        example_Reconciler_sel)
  have p: "pipeline (example_Reconciler [] example_result example_sets False)
             example_at_pipeline = Inr example_after_pipeline
         \<and> err example_after_pipeline = None
         \<and> Status (cluster (set_ObservedGeneration example_after_pipeline)) \<noteq>
             Status (before example_at_pipeline)"
    unfolding example_after_pipeline_def at
    by (simp add: Reconcile_eval)
  from h p status_patched_iff_changed [OF h conjunct1 [OF p] conjunct1 [OF conjunct2 [OF p]]]
  show ?thesis by blast
qed

theorem Reconcile_reserved_name_witness:
  "fst (Reconcile (example_Reconciler [] example_result example_sets False)
          (''ns'', ''postgres'') 0) = Returned Result_zero None
   \<and> calls (snd (Reconcile (example_Reconciler [] example_result example_sets False)
          (''ns'', ''postgres'') 0)) =
       [(Call_Get (''ns'', ''postgres''), None), (Call_handleDelete, None),
        (Call_Eventf ''Warning'' ''InvalidName'' ''%q is not allowed'' [''postgres''], None)]
   \<and> world (snd (Reconcile (example_Reconciler [] example_result example_sets False)
          (''ns'', ''postgres'') 0)) = 0"
  by (rule Reconcile_reserved_name
        [of _ _ _ "example_cluster\<lparr> Name := ''postgres'', DeletionTimestamp := None \<rparr>"])
     (simp_all add: example_Reconciler_sel)

theorem Reconcile_deletion_witness:
  "fst (Reconcile (example_Reconciler [] example_result example_sets False)
          (''deleting'', ''demo'') 0) = Returned example_result None
   \<and> calls (snd (Reconcile (example_Reconciler [] example_result example_sets False)
          (''deleting'', ''demo'') 0)) =
       [(Call_Get (''deleting'', ''demo''), None), (Call_handleDelete, None)]
   \<and> world (snd (Reconcile (example_Reconciler [] example_result example_sets False)
          (''deleting'', ''demo'') 0)) = 1"
  using Reconcile_deletion
    [of "example_Reconciler [] example_result example_sets False" 0 "(''deleting'', ''demo'')"
        "example_cluster\<lparr> Name := ''demo'', DeletionTimestamp := Some 0 \<rparr>"
        0 example_result None
        "example_cluster\<lparr> Name := ''demo'', DeletionTimestamp := Some 0 \<rparr>" 1]
  by (simp add: example_Reconciler_sel example_error_def)

text \<open>
  C5 as the specification states it fails: with logging at level 1 enabled, the handler
  returns a delay of ten seconds without \<open>Requeue\<close>, and \<open>Reconcile\<close> returns the delay
  with \<open>Requeue\<close> set.
\<close>

theorem Reconcile_deletion_result_changed:
  "fst (fst (deletion (example_Reconciler [] example_result example_sets True)
               (example_cluster\<lparr> Name := ''demo'', DeletionTimestamp := Some 0 \<rparr>) 0)) =
     \<lparr> Requeue = False, RequeueAfter = 10000000000 \<rparr>
   \<and> fst (Reconcile (example_Reconciler [] example_result example_sets True)
          (''deleting'', ''demo'') 0) =
     Returned \<lparr> Requeue = True, RequeueAfter = 10000000000 \<rparr> None"
  by (simp add: Reconcile_def Reconcile_head_def handleDelete_def Let_def
      example_Reconciler_sel example_error_def example_result_def word_sless_alt)

end
